theory Spec2Isabelle
  imports Main "HOL-Library.Word"
begin

unbundle bit_operations_syntax

section \<open>Configuration and colour table\<close>

text \<open>
  The constants of \<^verbatim>\<open>CONFIG\<close> and of the colour table \<^verbatim>\<open>C\<close>
  (\<^verbatim>\<open>ENABLE_COLOR\<close> is \<^verbatim>\<open>true\<close>, so the table holds the ANSI escapes).
\<close>

definition STR_PEEK_LEN :: nat where
  "STR_PEEK_LEN = 32"

definition LOOP_THRESHOLD :: nat where
  "LOOP_THRESHOLD = 10"

definition C_RESET :: string where
  "C_RESET = CHR 0x1B # ''[0m''"

definition C_RED :: string where
  "C_RED = CHR 0x1B # ''[31m''"

definition C_GREEN :: string where
  "C_GREEN = CHR 0x1B # ''[32m''"

definition C_YELLOW :: string where
  "C_YELLOW = CHR 0x1B # ''[33m''"

definition C_BLUE :: string where
  "C_BLUE = CHR 0x1B # ''[34m''"

definition C_MAGENTA :: string where
  "C_MAGENTA = CHR 0x1B # ''[35m''"

definition C_CYAN :: string where
  "C_CYAN = CHR 0x1B # ''[36m''"

definition C_GRAY :: string where
  "C_GRAY = CHR 0x1B # ''[90m''"

section \<open>JavaScript strings and numbers\<close>

text \<open>
  \<^verbatim>\<open>Number.prototype.toString(16)\<close> and \<^verbatim>\<open>toString(10)\<close> on a non-negative
  integer: lower-case digits, no leading zero.
\<close>

definition digitChar :: "nat \<Rightarrow> char" where
  "digitChar d = ''0123456789abcdef'' ! d"

fun toString16 :: "nat \<Rightarrow> string" where
  "toString16 n = (if n < 16 then [digitChar n] else toString16 (n div 16) @ [digitChar (n mod 16)])"

fun toString10 :: "nat \<Rightarrow> string" where
  "toString10 n = (if n < 10 then [digitChar n] else toString10 (n div 10) @ [digitChar (n mod 10)])"

declare toString16.simps [simp del]
declare toString10.simps [simp del]

definition intToString :: "int \<Rightarrow> string" where
  "intToString i = (if i < 0 then CHR ''-'' # toString10 (nat (- i)) else toString10 (nat i))"

definition startsWith :: "string \<Rightarrow> string \<Rightarrow> bool" where
  "startsWith s p = (take (length p) s = p)"

definition padEnd :: "nat \<Rightarrow> string \<Rightarrow> string" where
  "padEnd n s = s @ replicate (n - length s) CHR '' ''"

definition padStart :: "nat \<Rightarrow> char \<Rightarrow> string \<Rightarrow> string" where
  "padStart n c s = replicate (n - length s) c @ s"

fun join :: "string \<Rightarrow> string list \<Rightarrow> string" where
  "join sep [] = []"
| "join sep [s] = s"
| "join sep (s # t # ts) = s @ sep @ join sep (t # ts)"

text \<open>
  \<^verbatim>\<open>regName.match(/\d+/)\<close>: the first maximal run of ASCII digits, or no match;
  \<^verbatim>\<open>parseInt\<close> of such a run reads it in base ten.
\<close>

definition isDigit :: "char \<Rightarrow> bool" where
  "isDigit ch = (ch \<in> set ''0123456789'')"

definition matchDigits :: "string \<Rightarrow> string option" where
  "matchDigits s =
     (let run = takeWhile isDigit (dropWhile (\<lambda>ch. \<not> isDigit ch) s)
      in if run = [] then None else Some run)"

definition parseInt :: "string \<Rightarrow> nat" where
  "parseInt ds = foldl (\<lambda>acc ch. 10 * acc + (of_char ch - 48)) 0 ds"

section \<open>Native pointers and process memory\<close>

text \<open>
  A \<^verbatim>\<open>NativePointer\<close> on arm64 is a 64-bit word; \<^verbatim>\<open>add\<close>, \<^verbatim>\<open>sub\<close> and
  \<^verbatim>\<open>and\<close> are the word operations, \<^verbatim>\<open>compare\<close> orders pointers as unsigned
  numbers, and \<^verbatim>\<open>toString()\<close> prints \<^verbatim>\<open>0x\<close> and the hexadecimal digits.
  Process memory maps an address to the byte stored there, or to nothing where the
  address is not readable. A read that touches an unreadable address raises an access
  violation in the script; here it returns \<open>None\<close>.
\<close>

type_synonym nativeptr = "64 word"
type_synonym byte = "8 word"
type_synonym memory = "nativeptr \<Rightarrow> byte option"

definition ptrToString :: "nativeptr \<Rightarrow> string" where
  "ptrToString p = ''0x'' @ toString16 (unat p)"

fun readByteArray :: "memory \<Rightarrow> nativeptr \<Rightarrow> nat \<Rightarrow> byte list option" where
  "readByteArray m p 0 = Some []"
| "readByteArray m p (Suc n) =
     (case m p of
        None \<Rightarrow> None
      | Some b \<Rightarrow> (case readByteArray m (p + 1) n of None \<Rightarrow> None | Some bs \<Rightarrow> Some (b # bs)))"

definition leWord :: "byte list \<Rightarrow> nativeptr" where
  "leWord bs = foldr (\<lambda>b acc. ucast b + 256 * acc) bs 0"

definition readPointer :: "memory \<Rightarrow> nativeptr \<Rightarrow> nativeptr option" where
  "readPointer m p = map_option leWord (readByteArray m p 8)"

text \<open>
  \<^verbatim>\<open>readUtf8String(len)\<close> decodes \<open>len\<close> bytes. The script calls it only on bytes it
  has just checked to be printable ASCII, where decoding is the identity on the bytes.
\<close>

definition readUtf8String :: "memory \<Rightarrow> nativeptr \<Rightarrow> nat \<Rightarrow> string option" where
  "readUtf8String m p len = map_option (map (\<lambda>b. char_of (unat b))) (readByteArray m p len)"

section \<open>Values, errors, the register context and the session\<close>

text \<open>
  What \<^verbatim>\<open>getRegisterValue\<close> can return: a \<^verbatim>\<open>NativePointer\<close>, a string, or
  \<^verbatim>\<open>undefined\<close>. An exception that escapes a function is a value of \<open>js_error\<close>.
\<close>

datatype jsval = Ptr nativeptr | Str string | Undefined

datatype js_error = AccessViolation | TypeError

definition jsToString :: "jsval \<Rightarrow> string" where
  "jsToString v = (case v of Ptr p \<Rightarrow> ptrToString p | Str s \<Rightarrow> s | Undefined \<Rightarrow> ''undefined'')"

text \<open>
  Modelled from the spec: the register context is an object of the instrumentation
  engine, which is not part of the script. Section 3 of the specification gives its
  content (29 general-purpose registers, frame pointer, link register, stack pointer,
  program counter), and the script's own C declaration \<^verbatim>\<open>MyArm64CpuContext\<close> has the
  same fields. \<open>xreg c n\<close> is register \<^verbatim>\<open>x\<close>\<open>n\<close>; only \<open>n < 29\<close> is a register.
  \<open>ctxProp c name\<close> is the property read \<^verbatim>\<open>context[name]\<close>: \<open>None\<close> is
  \<^verbatim>\<open>undefined\<close>.
\<close>

record cpu_context =
  xreg :: "nat \<Rightarrow> nativeptr"
  fp :: nativeptr
  lr :: nativeptr
  sp :: nativeptr
  pc :: nativeptr

definition ctxProp :: "cpu_context \<Rightarrow> string \<Rightarrow> nativeptr option" where
  "ctxProp c regName =
     map_of ([(''pc'', pc c), (''sp'', sp c), (''fp'', fp c), (''lr'', lr c)]
             @ map (\<lambda>n. (''x'' @ toString10 n, xreg c n)) [0..<29]) regName"

text \<open>
  The script's two globals: \<^verbatim>\<open>cm\<close> (the compiled C module, or \<^verbatim>\<open>null\<close>) and
  \<^verbatim>\<open>simdBuffer\<close> (the 256-byte shadow buffer, or \<^verbatim>\<open>null\<close>). \<open>initSession\<close> is the
  \<^verbatim>\<open>try\<close> block that sets them: the first argument tells whether
  \<^verbatim>\<open>new CModule\<close> returned, the second is what \<^verbatim>\<open>Memory.alloc\<close> returned (nothing
  when it raised).
\<close>

record session =
  cm :: bool
  simdBuffer :: "nativeptr option"

definition initSession :: "bool \<Rightarrow> nativeptr option \<Rightarrow> session" where
  "initSession compiled allocated =
     (if compiled then \<lparr>cm = True, simdBuffer = allocated\<rparr>
      else \<lparr>cm = False, simdBuffer = None\<rparr>)"

text \<open>
  \<^verbatim>\<open>Memory.alloc(16 * 16)\<close> returns a block of 256 readable bytes: the invariant of a
  session whose buffer exists.
\<close>

definition simdReadable :: "session \<Rightarrow> memory \<Rightarrow> bool" where
  "simdReadable g m =
     (case simdBuffer g of None \<Rightarrow> True | Some buf \<Rightarrow> readByteArray m buf 256 \<noteq> None)"

section \<open>Pointer safety\<close>

text \<open>
  The argument of \<^verbatim>\<open>isSafePointer\<close> is a \<^verbatim>\<open>NativePointer\<close> or, for the test
  \<^verbatim>\<open>!ptrVal\<close>, no object at all (\<open>None\<close>). Every caller passes a pointer: the
  register operand is inspected only when \<^verbatim>\<open>typeof val !== 'string'\<close>, the other
  values come from \<^verbatim>\<open>readPointer\<close>. On a pointer, \<^verbatim>\<open>compare\<close> and \<^verbatim>\<open>and\<close> do not
  raise, so the \<^verbatim>\<open>catch\<close> branch is never taken.
\<close>

definition isSafePointer :: "nativeptr option \<Rightarrow> bool" where
  "isSafePointer ptrVal =
     (case ptrVal of
        None \<Rightarrow> False
      | Some p \<Rightarrow>
          if p = 0 then False
          else if p < 0x10000 then False
          else if p AND 7 \<noteq> 0 then False
          else True)"

section \<open>Register lookup\<close>

definition byteHex :: "byte \<Rightarrow> string" where
  "byteHex b = padStart 2 CHR ''0'' (toString16 (unat b))"

text \<open>The loop of \<^verbatim>\<open>toHex128\<close> runs \<open>i\<close> from 15 down to 0.\<close>

definition toHex128 :: "memory \<Rightarrow> nativeptr \<Rightarrow> js_error + string" where
  "toHex128 m ptrToData =
     (case readByteArray m ptrToData 16 of
        None \<Rightarrow> Inl AccessViolation
      | Some u8 \<Rightarrow> Inr (''0x'' @ foldl (\<lambda>hex i. hex @ byteHex (u8 ! i)) [] (rev [0..<16])))"

definition simdPrefix :: "string \<Rightarrow> bool" where
  "simdPrefix regName = list_ex (\<lambda>p. startsWith regName p) [''q'', ''d'', ''s'', ''h'', ''b'']"

definition getRegisterValue :: "session \<Rightarrow> memory \<Rightarrow> cpu_context \<Rightarrow> string \<Rightarrow> js_error + jsval" where
  "getRegisterValue g m c regName =
     (if regName = ''sp'' then Inr (Ptr (sp c))
      else if regName = ''wzr'' \<or> regName = ''xzr'' then Inr (Ptr 0)
      else if startsWith regName ''w'' then
        (let xRegName = ''x'' @ drop 1 regName
         in case ctxProp c xRegName of
              Some v \<Rightarrow> Inr (Ptr (v AND 0xFFFFFFFF))
            | None \<Rightarrow> Inr Undefined)
      else if simdPrefix regName then
        (case simdBuffer g of
           None \<Rightarrow> Inr (Str ''(No-CModule)'')
         | Some buf \<Rightarrow>
             (case matchDigits regName of
                None \<Rightarrow> Inr (Str ''?'')
              | Some d \<Rightarrow>
                  (let regIndex = parseInt d
                   in if regIndex < 16 then
                        (case toHex128 m (buf + of_nat (regIndex * 16)) of
                           Inl e \<Rightarrow> Inl e
                         | Inr hex \<Rightarrow> Inr (Str hex))
                      else Inr (Str ''(SIMD-OOB)''))))
      else (case ctxProp c regName of Some v \<Rightarrow> Inr (Ptr v) | None \<Rightarrow> Inr Undefined))"

section \<open>Memory inspection\<close>

text \<open>
  The scan loop of \<^verbatim>\<open>inspectMemory\<close>: it returns \<^verbatim>\<open>isString\<close> and \<^verbatim>\<open>len\<close> as
  they stand when the loop ends.
\<close>

fun scanLoop :: "byte list \<Rightarrow> nat \<Rightarrow> bool \<times> nat" where
  "scanLoop [] len = (True, len)"
| "scanLoop (b # bs) len =
     (if b = 0 then (True, len)
      else if b < 32 \<or> b > 126 then (False, len)
      else scanLoop bs (len + 1))"

text \<open>
  The first \<^verbatim>\<open>try\<close> block: \<open>Some\<close> is its \<^verbatim>\<open>return\<close>, \<open>None\<close> is falling out of
  the block, by its end or through the empty \<^verbatim>\<open>catch\<close>.
\<close>

definition peekString :: "memory \<Rightarrow> nativeptr \<Rightarrow> string option" where
  "peekString m p =
     (case readByteArray m p STR_PEEK_LEN of
        None \<Rightarrow> None
      | Some u8 \<Rightarrow>
          (case scanLoop u8 0 of
             (isString, len) \<Rightarrow>
               if isString \<and> len > 2 then
                 (case readUtf8String m p len of
                    None \<Rightarrow> None
                  | Some s \<Rightarrow> Some (C_GREEN @ '' => '' @ [CHR 0x22] @ s @ [CHR 0x22] @ C_RESET))
               else None))"

definition peekPointer :: "memory \<Rightarrow> nativeptr \<Rightarrow> string" where
  "peekPointer m p =
     (case readPointer m p of
        None \<Rightarrow> []
      | Some pointed \<Rightarrow>
          if isSafePointer (Some pointed)
          then C_BLUE @ '' => *('' @ ptrToString pointed @ '')'' @ C_RESET
          else [])"

definition inspectMemory :: "memory \<Rightarrow> nativeptr option \<Rightarrow> string" where
  "inspectMemory m ptrVal =
     (if \<not> isSafePointer ptrVal then []
      else case ptrVal of
             None \<Rightarrow> []
           | Some p \<Rightarrow> (case peekString m p of Some s \<Rightarrow> s | None \<Rightarrow> peekPointer m p))"

section \<open>Operand formatting\<close>

text \<open>
  A decoded instruction, as the disassembler hands it over. A memory operand carries an
  optional base register, an optional index register (which the script never reads) and
  a displacement; \<open>OpOther\<close> stands for the operand types the \<^verbatim>\<open>switch\<close> has no
  case for.
\<close>

datatype operand =
    OpReg string
  | OpMem "string option" "string option" int
  | OpImm int
  | OpOther

record instruction =
  address :: nativeptr
  mnemonic :: string
  opStr :: string
  operands :: "operand list"

text \<open>
  The body of the \<^verbatim>\<open>forEach\<close> callback: the detail it pushes, if any. The calls of
  \<^verbatim>\<open>getRegisterValue\<close> stand outside every \<^verbatim>\<open>try\<close>, so its exception escapes.
\<close>

definition memContentOf :: "memory \<Rightarrow> nativeptr \<Rightarrow> string" where
  "memContentOf m calculatedAddr =
     (case readPointer m calculatedAddr of
        None \<Rightarrow> []
      | Some loadedVal \<Rightarrow>
          '' '' @ C_BLUE @ ''[val='' @ ptrToString loadedVal @ '']'' @ C_RESET
          @ inspectMemory m (Some loadedVal))"

definition operandDetail ::
  "session \<Rightarrow> memory \<Rightarrow> cpu_context \<Rightarrow> operand \<Rightarrow> js_error + string option" where
  "operandDetail g m c op =
     (case op of
        OpReg r \<Rightarrow>
          (case getRegisterValue g m c r of
             Inl e \<Rightarrow> Inl e
           | Inr v \<Rightarrow>
               (let val = (if v = Undefined then Str ''?'' else v);
                    extra = (case val of
                               Ptr p \<Rightarrow> if startsWith r ''x'' \<or> r = ''sp''
                                        then inspectMemory m (Some p) else []
                             | _ \<Rightarrow> [])
                in Inr (Some (C_MAGENTA @ r @ C_RESET @ ''='' @ jsToString val @ extra))))
      | OpMem b i d \<Rightarrow>
          (let symbolic = ''['' @ (case b of None \<Rightarrow> ''undefined'' | Some bn \<Rightarrow> bn)
                          @ ''+'' @ intToString d @ '']=''
           in case b of
                None \<Rightarrow> Inr (Some (symbolic @ ''N/A''))
              | Some bn \<Rightarrow>
                  if bn = [] then Inr (Some (symbolic @ ''N/A''))
                  else (case getRegisterValue g m c bn of
                          Inl e \<Rightarrow> Inl e
                        | Inr (Ptr baseValue) \<Rightarrow>
                            (let calculatedAddr = baseValue + word_of_int d
                             in Inr (Some (symbolic @ ptrToString calculatedAddr
                                           @ memContentOf m calculatedAddr)))
                        | Inr _ \<Rightarrow> Inr (Some (symbolic @ ''N/A''))))
      | OpImm n \<Rightarrow> Inr (Some (C_GREEN @ ''#'' @ intToString n @ C_RESET))
      | OpOther \<Rightarrow> Inr None)"

fun collectDetails ::
  "session \<Rightarrow> memory \<Rightarrow> cpu_context \<Rightarrow> operand list \<Rightarrow> js_error + string list" where
  "collectDetails g m c [] = Inr []"
| "collectDetails g m c (op # ops) =
     (case operandDetail g m c op of
        Inl e \<Rightarrow> Inl e
      | Inr d \<Rightarrow>
          (case collectDetails g m c ops of
             Inl e \<Rightarrow> Inl e
           | Inr ds \<Rightarrow> Inr (case d of None \<Rightarrow> ds | Some s \<Rightarrow> s # ds)))"

definition formatOperandDetails ::
  "session \<Rightarrow> memory \<Rightarrow> cpu_context \<Rightarrow> instruction \<Rightarrow> js_error + string" where
  "formatOperandDetails g m c instr =
     (case collectDetails g m c (operands instr) of
        Inl e \<Rightarrow> Inl e
      | Inr details \<Rightarrow>
          Inr (if length details > 0 then ''('' @ join '', '' details @ '')'' else []))"

section \<open>The per-call trace state and the register diff\<close>

record trace_state =
  tid :: nat
  lastRegs :: "string \<rightharpoonup> string"
  lastInstructionLog :: "string option"
  loopCounter :: "string \<rightharpoonup> nat"

definition GENERAL_REGS :: "string list" where
  "GENERAL_REGS = [''x0'', ''x1'', ''x2'', ''x3'', ''x8'', ''fp'', ''lr'', ''sp'']"

text \<open>
  The loop of \<^verbatim>\<open>getDiffRegisters\<close> over the watch list, threading \<^verbatim>\<open>lastRegs\<close> and
  \<^verbatim>\<open>changed\<close>. \<^verbatim>\<open>val.toString()\<close> raises a type error on \<^verbatim>\<open>undefined\<close>.
\<close>

fun diffLoop ::
  "cpu_context \<Rightarrow> string list \<Rightarrow> (string \<rightharpoonup> string) \<Rightarrow> string list
   \<Rightarrow> js_error + (string list \<times> (string \<rightharpoonup> string))" where
  "diffLoop c [] regs changed = Inr (changed, regs)"
| "diffLoop c (regName # rest) regs changed =
     (case ctxProp c regName of
        None \<Rightarrow> Inl TypeError
      | Some v \<Rightarrow>
          (let newValue = ptrToString v
           in diffLoop c rest (regs(regName \<mapsto> newValue))
                (if regs regName \<noteq> Some newValue
                 then changed @ [regName @ ''='' @ newValue] else changed)))"

definition getDiffRegisters ::
  "cpu_context \<Rightarrow> (string \<rightharpoonup> string) \<Rightarrow> js_error + (string \<times> (string \<rightharpoonup> string))" where
  "getDiffRegisters c regs =
     (case diffLoop c GENERAL_REGS regs [] of
        Inl e \<Rightarrow> Inl e
      | Inr (changed, regs') \<Rightarrow>
          Inr (if length changed > 0
               then '' | { '' @ C_RED @ join '', '' changed @ C_RESET @ '' }''
               else [],
               regs'))"

section \<open>The instrumentation callout\<close>

text \<open>
  The module the transform found for the instruction: its name and base address.
\<close>

record module_info =
  mod_name :: string
  mod_base :: nativeptr

definition renderLine :: "module_info \<Rightarrow> cpu_context \<Rightarrow> instruction \<Rightarrow> string \<Rightarrow> string" where
  "renderLine md c currentInstr operandDetails =
     (let offset = pc c - mod_base md;
          color0 = C_CYAN;
          color1 = (if startsWith (mnemonic currentInstr) ''bl'' then C_YELLOW else color0);
          color = (if startsWith (mnemonic currentInstr) ''ret'' then C_RED else color1)
      in C_GRAY @ ''['' @ ptrToString offset @ '']'' @ C_RESET @ '' ''
         @ ptrToString (address currentInstr) @ '' ''
         @ color @ padEnd 8 (mnemonic currentInstr) @ C_RESET @ '' ''
         @ padEnd 30 (opStr currentInstr) @ '' ''
         @ padEnd 40 operandDetails)"

text \<open>
  \<^verbatim>\<open>if (x) console.log(...)\<close> on the pending line: \<^verbatim>\<open>null\<close> and the empty string
  are falsy.
\<close>

definition flushPending :: "string option \<Rightarrow> string \<Rightarrow> string list" where
  "flushPending pending suffix =
     (case pending of None \<Rightarrow> [] | Some l \<Rightarrow> if l = [] then [] else [l @ suffix])"

text \<open>
  The hit counter of the program counter after the increment of this hit:
  \<^verbatim>\<open>if (!n) n = 0; n++\<close>.
\<close>

definition hitCount :: "trace_state \<Rightarrow> cpu_context \<Rightarrow> nat" where
  "hitCount st c =
     (case loopCounter st (ptrToString (pc c)) of None \<Rightarrow> 0 | Some n \<Rightarrow> n) + 1"

definition countHit :: "trace_state \<Rightarrow> cpu_context \<Rightarrow> trace_state" where
  "countHit st c = st\<lparr>loopCounter := (loopCounter st)(ptrToString (pc c) \<mapsto> hitCount st c)\<rparr>"

text \<open>
  The callout after the gate: diff, flush, new pending line. The result is the new
  state and the lines written to the console by this hit. \<open>parse\<close> is the
  disassembler (\<^verbatim>\<open>Instruction.parse\<close>), taken as a total function. When an
  exception escapes the callout the result is the exception alone: what the hit had
  already written or stored is not kept. The hit counter is a natural number here and
  a double in the script, which agree on every count below \<open>2 ^ 53\<close>.
\<close>

definition renderHit ::
  "session \<Rightarrow> (nativeptr \<Rightarrow> instruction) \<Rightarrow> module_info \<Rightarrow> memory \<Rightarrow> trace_state
   \<Rightarrow> cpu_context \<Rightarrow> js_error + (trace_state \<times> string list)" where
  "renderHit g parse md m st c =
     (case getDiffRegisters c (lastRegs st) of
        Inl e \<Rightarrow> Inl e
      | Inr (diff, regs') \<Rightarrow>
          (let printed = flushPending (lastInstructionLog st) diff;
               currentInstr = parse (pc c)
           in case formatOperandDetails g m c currentInstr of
                Inl e \<Rightarrow> Inl e
              | Inr operandDetails \<Rightarrow>
                  Inr (st\<lparr>lastRegs := regs',
                          lastInstructionLog := Some (renderLine md c currentInstr operandDetails)\<rparr>,
                       printed)))"

definition callout ::
  "session \<Rightarrow> (nativeptr \<Rightarrow> instruction) \<Rightarrow> module_info \<Rightarrow> memory \<Rightarrow> trace_state
   \<Rightarrow> cpu_context \<Rightarrow> js_error + (trace_state \<times> string list)" where
  "callout g parse md m st c =
     (let st1 = countHit st c;
          n = hitCount st c
      in if n > LOOP_THRESHOLD \<and> n mod 100 \<noteq> 0 then Inr (st1, [])
         else renderHit g parse md m st1 c)"

text \<open>
  The engine runs the callout once for every instrumented instruction the thread
  executes. \<open>runHits\<close> threads the trace state of one activation through such a
  sequence of hits and collects, hit by hit, the lines each one wrote.
\<close>

fun runHits ::
  "session \<Rightarrow> (nativeptr \<Rightarrow> instruction) \<Rightarrow> module_info \<Rightarrow> memory \<Rightarrow> trace_state
   \<Rightarrow> cpu_context list \<Rightarrow> js_error + (trace_state \<times> string list list)" where
  "runHits g parse md m st [] = Inr (st, [])"
| "runHits g parse md m st (c # cs) =
     (case callout g parse md m st c of
        Inl e \<Rightarrow> Inl e
      | Inr (st', printed) \<Rightarrow>
          (case runHits g parse md m st' cs of
             Inl e \<Rightarrow> Inl e
           | Inr (st'', rest) \<Rightarrow> Inr (st'', printed # rest)))"

section \<open>Function entry and exit\<close>

definition onEnter :: "nat \<Rightarrow> trace_state \<times> string list" where
  "onEnter t =
     (\<lparr>tid = t, lastRegs = Map.empty, lastInstructionLog = None, loopCounter = Map.empty\<rparr>,
      [C_YELLOW @ ''[tid: '' @ toString10 t @ ''] >>>>> ''
       @ [CHR 0xE8, CHR 0xBF, CHR 0x9B, CHR 0xE5, CHR 0x85, CHR 0xA5,
          CHR 0xE5, CHR 0x87, CHR 0xBD, CHR 0xE6, CHR 0x95, CHR 0xB0]
       @ '' >>>>>'' @ C_RESET])"

definition exitBanner :: "nativeptr \<Rightarrow> string" where
  "exitBanner retval =
     C_YELLOW @ [CHR 0x0A] @ ''<<<<< '' @ [CHR 0xE7, CHR 0xBB, CHR 0x93, CHR 0xE6, CHR 0x9D, CHR 0x9F]
     @ '' (Ret='' @ ptrToString retval @ '') <<<<<'' @ C_RESET @ [CHR 0x0A]"

definition onLeave :: "trace_state \<Rightarrow> nativeptr \<Rightarrow> string list" where
  "onLeave st retval = flushPending (lastInstructionLog st) [] @ [exitBanner retval]"

section \<open>The transform\<close>

text \<open>
  What the transform does to the iterator, in order: a callout of the C function
  \<^verbatim>\<open>dump_simd_regs\<close> with the shadow buffer as user data, a callout of the script's
  closure (which holds the module it was made for), or \<^verbatim>\<open>keep()\<close> of the current
  instruction. \<open>getModule\<close> is \<^verbatim>\<open>getModuleByAddressSafe\<close>: the module of an address,
  or nothing. The block is the sequence of instructions \<^verbatim>\<open>iterator.next()\<close> yields;
  on an empty block the first \<^verbatim>\<open>instruction.address\<close> reads a property of
  \<^verbatim>\<open>null\<close>.
\<close>

datatype stalker_op =
    PutCalloutC "nativeptr option"
  | PutCalloutJS module_info
  | Keep instruction

definition instrument ::
  "session \<Rightarrow> (nativeptr \<Rightarrow> module_info option) \<Rightarrow> string \<Rightarrow> instruction \<Rightarrow> stalker_op list" where
  "instrument g getModule targetModuleName instr =
     (case getModule (address instr) of
        None \<Rightarrow> []
      | Some md \<Rightarrow>
          if mod_name md = targetModuleName
          then (if cm g then [PutCalloutC (simdBuffer g)] else []) @ [PutCalloutJS md]
          else [])"

fun transformLoop ::
  "session \<Rightarrow> (nativeptr \<Rightarrow> module_info option) \<Rightarrow> string \<Rightarrow> instruction \<Rightarrow> instruction list
   \<Rightarrow> stalker_op list" where
  "transformLoop g getModule targetModuleName instr rest =
     instrument g getModule targetModuleName instr @ [Keep instr]
     @ (case rest of
          [] \<Rightarrow> []
        | nxt # rest' \<Rightarrow> transformLoop g getModule targetModuleName nxt rest')"

definition transform ::
  "session \<Rightarrow> (nativeptr \<Rightarrow> module_info option) \<Rightarrow> string \<Rightarrow> instruction list
   \<Rightarrow> js_error + stalker_op list" where
  "transform g getModule targetModuleName block =
     (case block of
        [] \<Rightarrow> Inl TypeError
      | instr # rest \<Rightarrow> Inr (transformLoop g getModule targetModuleName instr rest))"

section \<open>The register diff, as the specification words it\<close>

text \<open>
  Step 3 of the pipeline in the words of the specification: the current rendering of a
  register, the registers of the watch list whose rendering differs from the stored
  one, the annotation built from them, and the stored renderings after the step. They
  are compared with \<open>getDiffRegisters\<close> below.
\<close>

definition regText :: "cpu_context \<Rightarrow> string \<Rightarrow> string" where
  "regText c r = (case ctxProp c r of Some v \<Rightarrow> ptrToString v | None \<Rightarrow> ''undefined'')"

definition changedRegs :: "cpu_context \<Rightarrow> (string \<rightharpoonup> string) \<Rightarrow> string list" where
  "changedRegs c regs = filter (\<lambda>r. regs r \<noteq> Some (regText c r)) GENERAL_REGS"

definition diffText :: "cpu_context \<Rightarrow> (string \<rightharpoonup> string) \<Rightarrow> string" where
  "diffText c regs =
     (if changedRegs c regs = [] then []
      else '' | { '' @ C_RED @ join '', '' (map (\<lambda>r. r @ ''='' @ regText c r) (changedRegs c regs))
           @ C_RESET @ '' }'')"

definition watched :: "cpu_context \<Rightarrow> (string \<rightharpoonup> string) \<Rightarrow> (string \<rightharpoonup> string)" where
  "watched c regs = (\<lambda>r. if r \<in> set GENERAL_REGS then Some (regText c r) else regs r)"

section \<open>The executed stream and the decoding of a hex literal\<close>

text \<open>
  Two notions of the specification that the script has no function for: the instructions
  a transformed block retains, in order (\<open>kept\<close>), and the bytes a displayed hex
  literal decodes to, two digits a byte (\<open>decodeHex\<close>).
\<close>

fun kept :: "stalker_op list \<Rightarrow> instruction list" where
  "kept [] = []"
| "kept (Keep i # ops) = i # kept ops"
| "kept (PutCalloutC b # ops) = kept ops"
| "kept (PutCalloutJS md # ops) = kept ops"

definition hexVal :: "char \<Rightarrow> nat option" where
  "hexVal ch = map_of (zip ''0123456789abcdef'' [0..<16]) ch"

fun decodeHex :: "string \<Rightarrow> byte list option" where
  "decodeHex [] = Some []"
| "decodeHex [a] = None"
| "decodeHex (a # b # rest) =
     (case (hexVal a, hexVal b, decodeHex rest) of
        (Some hi, Some lo, Some bs) \<Rightarrow> Some (of_nat (16 * hi + lo) # bs)
      | _ \<Rightarrow> None)"

text \<open>
  The symbolic base+displacement form of a memory operand, as the template of the
  script prints it; the printable ASCII range; and the bytes of a peek up to the zero
  terminator or, without one, up to the peek limit.
\<close>

definition memSymbolic :: "string option \<Rightarrow> int \<Rightarrow> string" where
  "memSymbolic b d =
     ''['' @ (case b of None \<Rightarrow> ''undefined'' | Some bn \<Rightarrow> bn) @ ''+'' @ intToString d @ '']=''"

definition printable :: "byte \<Rightarrow> bool" where
  "printable b = (32 \<le> b \<and> b \<le> 126)"

definition zrun :: "byte list \<Rightarrow> byte list" where
  "zrun u8 = takeWhile (\<lambda>b. b \<noteq> 0) u8"

section \<open>Example inputs\<close>

text \<open>
  Concrete inputs at which the theorems below are instantiated: a session whose bridge
  failed, a memory with no readable address, a disassembler that decodes every address
  as \<^verbatim>\<open>ret\<close> without operands, a context of zeros, and a trace state whose
  counter for the program counter of that context is \<open>n\<close>.
\<close>

definition exSession :: session where
  "exSession = \<lparr>cm = False, simdBuffer = None\<rparr>"

definition exMemory :: memory where
  "exMemory = (\<lambda>a. None)"

definition exParse :: "nativeptr \<Rightarrow> instruction" where
  "exParse a = \<lparr>address = a, mnemonic = ''ret'', opStr = [], operands = []\<rparr>"

definition exModule :: module_info where
  "exModule = \<lparr>mod_name = ''libnative-lib.so'', mod_base = 0\<rparr>"

definition exCtx :: cpu_context where
  "exCtx = \<lparr>xreg = (\<lambda>n. 0), fp = 0, lr = 0, sp = 0, pc = 0\<rparr>"

definition exState :: "nat \<Rightarrow> string option \<Rightarrow> trace_state" where
  "exState n pending =
     \<lparr>tid = 0, lastRegs = Map.empty, lastInstructionLog = pending,
      loopCounter = [ptrToString (pc exCtx) \<mapsto> n]\<rparr>"

text \<open>
  The trace state after a hit at the example context was rendered, with the counter of
  its program counter at \<open>n\<close>.
\<close>

definition exRendered :: "nat \<Rightarrow> trace_state" where
  "exRendered n =
     \<lparr>tid = 0, lastRegs = watched exCtx Map.empty,
      lastInstructionLog = Some (renderLine exModule exCtx (exParse 0) []),
      loopCounter = [ptrToString (pc exCtx) \<mapsto> n]\<rparr>"

text \<open>
  A session whose bridge is up, with its buffer at \<open>0x100000\<close>, and a memory where
  exactly the 256 bytes of the buffer are readable; byte \<open>i\<close> of the buffer holds \<open>i\<close>.
\<close>

definition vecSession :: session where
  "vecSession = \<lparr>cm = True, simdBuffer = Some 0x100000\<rparr>"

definition vecMemory :: memory where
  "vecMemory = (\<lambda>a. if 0x100000 \<le> a \<and> a < 0x100100 then Some (ucast (a - 0x100000)) else None)"

text \<open>
  A memory whose only readable bytes are the eight at \<open>0x10000\<close>, holding the
  pointer \<open>0x20000\<close>; and a memory with 64 readable bytes at \<open>0x30000\<close>: the
  characters \<^verbatim>\<open>OK!\<close>, a zero, then bytes \<open>0xFF\<close>.
\<close>

definition cexMemory :: memory where
  "cexMemory = (\<lambda>a. if a = 0x10002 then Some 2
                     else if 0x10000 \<le> a \<and> a < 0x10008 then Some 0 else None)"

definition strMemory :: memory where
  "strMemory = (\<lambda>a. if a = 0x30000 then Some 0x4F else if a = 0x30001 then Some 0x4B
                     else if a = 0x30002 then Some 0x21 else if a = 0x30003 then Some 0
                     else if 0x30000 \<le> a \<and> a < 0x30040 then Some 0xFF else None)"

section \<open>Auxiliary facts\<close>

lemma and7_aligned: "(p AND 7 = 0) = (unat (p :: 64 word) mod 8 = 0)"
proof -
  have "p AND 7 = take_bit 3 p"
    by (simp add: take_bit_eq_mask mask_eq_exp_minus_1)
  then have "(p AND 7 = 0) = (unat (take_bit 3 p) = 0)"
    by (simp add: unat_eq_0)
  also have "\<dots> = (take_bit 3 (unat p) = 0)"
    by (simp add: unsigned_take_bit_eq)
  also have "\<dots> = (unat p mod 8 = 0)"
    by (simp add: take_bit_eq_mod)
  finally show ?thesis .
qed

lemma readByteArray_add:
  "readByteArray m p (a + b) =
     (case readByteArray m p a of
        None \<Rightarrow> None
      | Some xs \<Rightarrow> (case readByteArray m (p + of_nat a) b of
                     None \<Rightarrow> None | Some ys \<Rightarrow> Some (xs @ ys)))"
proof (induction a arbitrary: p)
  case 0
  then show ?case by (simp split: option.split)
next
  case (Suc a)
  then show ?case by (simp add: add.assoc split: option.split)
qed

lemma readByteArray_length: "readByteArray m p n = Some bs \<Longrightarrow> length bs = n"
  by (induction n arbitrary: p bs) (auto split: option.splits)

lemma readByteArray_prefix:
  assumes "readByteArray m p n = Some bs" and "k \<le> n"
  shows "readByteArray m p k = Some (take k bs)"
proof -
  from assms(2) obtain d where n: "n = k + d" using le_Suc_ex by blast
  from assms(1) obtain xs ys where xs: "readByteArray m p k = Some xs" and bs: "bs = xs @ ys"
    unfolding n readByteArray_add by (auto split: option.splits)
  from xs have "length xs = k" by (rule readByteArray_length)
  with xs bs show ?thesis by simp
qed

lemma readByteArray_window:
  assumes "readByteArray m p n \<noteq> None" and "a + k \<le> n"
  shows "readByteArray m (p + of_nat a) k \<noteq> None"
proof -
  from assms(2) obtain d where n: "n = a + (k + d)"
    by (metis add.assoc le_Suc_ex)
  from assms(1) show ?thesis
    unfolding n readByteArray_add by (auto split: option.splits)
qed

lemma ctxProp_named:
  "ctxProp c ''sp'' = Some (sp c)" "ctxProp c ''pc'' = Some (pc c)"
  "ctxProp c ''fp'' = Some (fp c)" "ctxProp c ''lr'' = Some (lr c)"
  by (simp_all add: ctxProp_def)

lemma ctxProp_x:
  "ctxProp c ''x0'' = Some (xreg c 0)" "ctxProp c ''x1'' = Some (xreg c 1)"
  "ctxProp c ''x2'' = Some (xreg c 2)" "ctxProp c ''x3'' = Some (xreg c 3)"
  "ctxProp c ''x8'' = Some (xreg c 8)"
  by (simp_all add: ctxProp_def upt_conv_Cons toString10.simps digitChar_def) (simp_all add: eval_nat_numeral)

lemma diffLoop_eq:
  "distinct rs \<Longrightarrow> set rs \<subseteq> dom (ctxProp c) \<Longrightarrow>
   diffLoop c rs regs changed =
     Inr (changed @ map (\<lambda>r. r @ ''='' @ regText c r)
                        (filter (\<lambda>r. regs r \<noteq> Some (regText c r)) rs),
          (\<lambda>r. if r \<in> set rs then Some (regText c r) else regs r))"
proof (induction rs arbitrary: regs changed)
  case Nil
  then show ?case by simp
next
  case (Cons r rs)
  from Cons.prems obtain v where v: "ctxProp c r = Some v" by auto
  have nv: "regText c r = ptrToString v" by (simp add: regText_def v)
  have notin: "r \<notin> set rs" and d: "distinct rs" and sub: "set rs \<subseteq> dom (ctxProp c)"
    using Cons.prems by auto
  have flt: "filter (\<lambda>q. (regs(r \<mapsto> ptrToString v)) q \<noteq> Some (regText c q)) rs
             = filter (\<lambda>q. regs q \<noteq> Some (regText c q)) rs"
    using notin by (intro filter_cong) auto
  have upd: "(\<lambda>q. if q \<in> set rs then Some (regText c q) else (regs(r \<mapsto> ptrToString v)) q)
             = (\<lambda>q. if q \<in> set (r # rs) then Some (regText c q) else regs q)"
    by (auto simp: nv)
  have "diffLoop c (r # rs) regs changed
        = diffLoop c rs (regs(r \<mapsto> ptrToString v))
            (if regs r \<noteq> Some (ptrToString v)
             then changed @ [r @ ''='' @ ptrToString v] else changed)"
    by (simp add: v Let_def)
  also have "\<dots> = Inr ((if regs r \<noteq> Some (ptrToString v)
                         then changed @ [r @ ''='' @ ptrToString v] else changed)
                        @ map (\<lambda>r. r @ ''='' @ regText c r)
                            (filter (\<lambda>q. regs q \<noteq> Some (regText c q)) rs),
                        (\<lambda>q. if q \<in> set (r # rs) then Some (regText c q) else regs q))"
    unfolding Cons.IH [OF d sub] flt upd ..
  also have "\<dots> = Inr (changed @ map (\<lambda>r. r @ ''='' @ regText c r)
                                     (filter (\<lambda>r. regs r \<noteq> Some (regText c r)) (r # rs)),
                        (\<lambda>q. if q \<in> set (r # rs) then Some (regText c q) else regs q))"
    by (simp add: nv)
  finally show ?case .
qed


lemma GENERAL_REGS_dom: "set GENERAL_REGS \<subseteq> dom (ctxProp c)"
  by (auto simp: GENERAL_REGS_def ctxProp_named ctxProp_x)

lemma GENERAL_REGS_distinct: "distinct GENERAL_REGS"
  by (simp add: GENERAL_REGS_def)

lemma getDiffRegisters_eq:
  "getDiffRegisters c regs = Inr (diffText c regs, watched c regs)"
  unfolding getDiffRegisters_def diffLoop_eq [OF GENERAL_REGS_distinct GENERAL_REGS_dom]
  apply (simp only: diffText_def changedRegs_def watched_def append_Nil sum.case prod.case length_greater_0_conv map_is_Nil_conv)
  apply simp
  done

lemma toHex128_total:
  "readByteArray m p 16 = Some u8 \<Longrightarrow> \<exists>s. toHex128 m p = Inr s"
  by (simp add: toHex128_def)



lemma getRegisterValue_total:
  assumes "simdReadable g m"
  shows "\<exists>v. getRegisterValue g m c regName = Inr v"
proof (cases "simdBuffer g")
  case None
  then show ?thesis
    by (simp add: getRegisterValue_def Let_def split: option.split)
next
  case (Some buf)
  with assms have rd: "readByteArray m buf 256 \<noteq> None"
    by (simp add: simdReadable_def)
  have hex: "\<exists>s. toHex128 m (buf + of_nat (n * 16)) = Inr s" if "n < 16" for n
  proof -
    from that have "n * 16 + 16 \<le> 256" by simp
    from readByteArray_window [OF rd this]
    obtain u8 where "readByteArray m (buf + of_nat (n * 16)) 16 = Some u8" by blast
    then show ?thesis by (rule toHex128_total)
  qed
  show ?thesis
  proof (cases "simdPrefix regName \<and> (\<exists>d. matchDigits regName = Some d \<and> parseInt d < 16)")
    case True
    then obtain d where d: "matchDigits regName = Some d" "parseInt d < 16" by blast
    from hex [OF d(2)] obtain s where "toHex128 m (buf + of_nat (parseInt d * 16)) = Inr s" ..
    with True d Some show ?thesis
      by (simp add: getRegisterValue_def Let_def split: option.split)
  next
    case False
    with Some show ?thesis
      by (auto simp add: getRegisterValue_def Let_def split: option.split)
  qed
qed

lemma operandDetail_total:
  assumes "simdReadable g m"
  shows "\<exists>d. operandDetail g m c op = Inr d"
proof (cases op)
  case (OpReg r)
  from getRegisterValue_total [OF assms, of c r] obtain v
    where "getRegisterValue g m c r = Inr v" ..
  with OpReg show ?thesis by (simp add: operandDetail_def Let_def)
next
  case (OpMem b i d)
  show ?thesis
  proof (cases b)
    case None
    with OpMem show ?thesis by (simp add: operandDetail_def Let_def)
  next
    case (Some bn)
    from getRegisterValue_total [OF assms, of c bn] obtain v
      where "getRegisterValue g m c bn = Inr v" ..
    with OpMem Some show ?thesis
      by (cases v) (simp_all add: operandDetail_def Let_def)
  qed
next
  case (OpImm n)
  then show ?thesis by (simp add: operandDetail_def)
next
  case OpOther
  then show ?thesis by (simp add: operandDetail_def)
qed

lemma collectDetails_total:
  assumes "simdReadable g m"
  shows "\<exists>ds. collectDetails g m c ops = Inr ds"
proof (induction ops)
  case Nil
  then show ?case by simp
next
  case (Cons op ops)
  from operandDetail_total [OF assms, of c op] obtain d where "operandDetail g m c op = Inr d" ..
  with Cons show ?case by auto
qed

lemma formatOperandDetails_total:
  assumes "simdReadable g m"
  shows "\<exists>s. formatOperandDetails g m c instr = Inr s"
proof -
  from collectDetails_total [OF assms, of c "operands instr"] obtain ds
    where "collectDetails g m c (operands instr) = Inr ds" ..
  then show ?thesis by (simp add: formatOperandDetails_def)
qed

lemma renderLine_nonempty: "renderLine md c i ops \<noteq> []"
  by (simp add: renderLine_def Let_def C_GRAY_def)

lemma callout_suppressed:
  assumes "hitCount st c > 10" and "hitCount st c mod 100 \<noteq> 0"
  shows "callout g parse md m st c = Inr (countHit st c, [])"
  using assms by (simp add: callout_def Let_def LOOP_THRESHOLD_def)

lemma renderHit_eq:
  assumes "formatOperandDetails g m c (parse (pc c)) = Inr ops"
  shows "renderHit g parse md m st c =
           Inr (st\<lparr>lastRegs := watched c (lastRegs st),
                   lastInstructionLog := Some (renderLine md c (parse (pc c)) ops)\<rparr>,
                flushPending (lastInstructionLog st) (diffText c (lastRegs st)))"
  by (simp add: renderHit_def getDiffRegisters_eq assms Let_def)

lemma countHit_fields:
  "lastRegs (countHit st c) = lastRegs st"
  "lastInstructionLog (countHit st c) = lastInstructionLog st"
  "tid (countHit st c) = tid st"
  by (simp_all add: countHit_def)

lemma callout_passed:
  assumes "hitCount st c \<le> 10 \<or> hitCount st c mod 100 = 0"
    and "formatOperandDetails g m c (parse (pc c)) = Inr ops"
  shows "callout g parse md m st c =
           Inr ((countHit st c)\<lparr>lastRegs := watched c (lastRegs st),
                   lastInstructionLog := Some (renderLine md c (parse (pc c)) ops)\<rparr>,
                flushPending (lastInstructionLog st) (diffText c (lastRegs st)))"
proof -
  from assms(1) have "\<not> (hitCount st c > LOOP_THRESHOLD \<and> hitCount st c mod 100 \<noteq> 0)"
    by (auto simp: LOOP_THRESHOLD_def)
  then have "callout g parse md m st c = renderHit g parse md m (countHit st c) c"
    unfolding callout_def Let_def by (simp only: if_False)
  then show ?thesis
    by (simp add: renderHit_eq [where parse = parse and c = c, OF assms(2)] countHit_fields)
qed

lemma changedRegs_watched:
  "changedRegs c' (watched c0 regs) = filter (\<lambda>r. regText c' r \<noteq> regText c0 r) GENERAL_REGS"
  unfolding changedRegs_def by (rule filter_cong) (auto simp: watched_def)

lemma transformLoop_eq:
  "transformLoop g gm t i rest = concat (map (\<lambda>i. instrument g gm t i @ [Keep i]) (i # rest))"
  by (induction rest arbitrary: i) simp_all

lemma kept_instrument: "kept (instrument g gm t i @ ops) = kept ops"
  by (simp add: instrument_def split: option.split)

lemma kept_concat:
  "kept (concat (map (\<lambda>i. instrument g gm t i @ [Keep i]) block)) = block"
  by (induction block) (simp_all add: kept_instrument)

lemma toHex128_loop:
  "n \<le> length u8 \<Longrightarrow>
   foldl (\<lambda>hex i. hex @ f (u8 ! i)) acc (rev [0..<n]) = acc @ concat (map f (rev (take n u8)))"
proof (induction n arbitrary: acc)
  case 0
  then show ?case by simp
next
  case (Suc n)
  then have "n < length u8" by simp
  then have "take (Suc n) u8 = take n u8 @ [u8 ! n]" by (rule take_Suc_conv_app_nth)
  with Suc show ?case by simp
qed

lemma toHex128_eq:
  assumes "readByteArray m p 16 = Some u8"
  shows "toHex128 m p = Inr (''0x'' @ concat (map byteHex (rev u8)))"
proof -
  from assms have len: "length u8 = 16" by (rule readByteArray_length)
  then have "foldl (\<lambda>hex i. hex @ byteHex (u8 ! i)) [] (rev [0..<16]) = [] @ concat (map byteHex (rev (take 16 u8)))"
    by (intro toHex128_loop) simp
  with len show ?thesis by (simp add: toHex128_def assms)
qed

lemma below16_cases:
  assumes "k < (16::nat)"
  shows "k = 0 \<or> k = 1 \<or> k = 2 \<or> k = 3 \<or> k = 4 \<or> k = 5 \<or> k = 6 \<or> k = 7 \<or>
         k = 8 \<or> k = 9 \<or> k = 10 \<or> k = 11 \<or> k = 12 \<or> k = 13 \<or> k = 14 \<or> k = 15"
  using assms by arith

lemma hexVal_digitChar: "k < 16 \<Longrightarrow> hexVal (digitChar k) = Some k"
  by (drule below16_cases, elim disjE) (simp_all add: hexVal_def digitChar_def upt_conv_Cons)

lemma digitChar_decimal:
  "k < 10 \<Longrightarrow> isDigit (digitChar k) \<and> of_char (digitChar k) - 48 = k"
proof -
  assume "k < 10"
  then have "k = 0 \<or> k = 1 \<or> k = 2 \<or> k = 3 \<or> k = 4 \<or> k = 5 \<or> k = 6 \<or> k = 7 \<or> k = 8 \<or> k = 9"
    by arith
  then show ?thesis by (elim disjE) (simp_all add: isDigit_def digitChar_def)
qed

lemma byteHex_eq: "byteHex b = [digitChar (unat b div 16), digitChar (unat b mod 16)]"
proof -
  have lt: "unat b < 256" using unsigned_less [of b, where ?'a = nat] by simp
  show ?thesis
  proof (cases "unat b < 16")
    case True
    then show ?thesis
      by (simp add: byteHex_def padStart_def toString16.simps digitChar_def)
  next
    case False
    with lt have "unat b div 16 < 16" by simp
    with False show ?thesis
      by (simp add: byteHex_def padStart_def toString16.simps [of "unat b"] toString16.simps [of "unat b div 16"])
  qed
qed

lemma decodeHex_byteHex: "decodeHex (byteHex b @ rest) = map_option ((#) b) (decodeHex rest)"
proof -
  have lt: "unat b < 256" using unsigned_less [of b, where ?'a = nat] by simp
  then have hi: "unat b div 16 < 16" and lo: "unat b mod 16 < 16" by simp_all
  have "(of_nat (16 * (unat b div 16) + unat b mod 16) :: byte) = b"
    by simp
  then show ?thesis
    by (cases "decodeHex rest") (simp_all add: byteHex_eq hexVal_digitChar [OF hi] hexVal_digitChar [OF lo])
qed

lemma decodeHex_concat: "decodeHex (concat (map byteHex bs)) = Some bs"
  by (induction bs) (simp_all add: decodeHex_byteHex)

lemma parseInt_snoc: "parseInt (ds @ [ch]) = 10 * parseInt ds + (of_char ch - 48)"
  by (simp add: parseInt_def)

lemma toString10_digits:
  "parseInt (toString10 n) = n \<and> list_all isDigit (toString10 n) \<and> toString10 n \<noteq> []"
proof (induction n rule: toString10.induct)
  case (1 n)
  show ?case
  proof (cases "n < 10")
    case True
    then show ?thesis
      using digitChar_decimal [OF True]
      by (simp add: toString10.simps [of n] parseInt_def)
  next
    case False
    have m: "n mod 10 < 10" by simp
    from False 1 digitChar_decimal [OF m] show ?thesis
      by (simp add: toString10.simps [of n] parseInt_snoc)
  qed
qed

lemma matchDigits_suffix:
  assumes "\<not> isDigit ch" and "ds \<noteq> []" and "list_all isDigit ds"
  shows "matchDigits (ch # ds) = Some ds"
proof -
  from assms(2,3) obtain d ds' where ds: "ds = d # ds'" and d: "isDigit d"
    by (cases ds) auto
  have "takeWhile isDigit ds = ds"
    using assms(3) by (simp add: list_all_iff)
  then show ?thesis
    using assms(1,2) d by (simp add: matchDigits_def ds)
qed

lemma vector_name:
  assumes "ch \<in> set ''qdshb''"
  shows "getRegisterValue g m c (ch # toString10 n) =
           (case simdBuffer g of
              None \<Rightarrow> Inr (Str ''(No-CModule)'')
            | Some buf \<Rightarrow>
                if n < 16 then
                  (case toHex128 m (buf + of_nat (n * 16)) of
                     Inl e \<Rightarrow> Inl e | Inr hex \<Rightarrow> Inr (Str hex))
                else Inr (Str ''(SIMD-OOB)''))"
proof -
  let ?name = "ch # toString10 n"
  from toString10_digits [of n]
  have p: "parseInt (toString10 n) = n" and a: "list_all isDigit (toString10 n)"
    and ne: "toString10 n \<noteq> []" by simp_all
  from ne obtain d ds where ds: "toString10 n = d # ds" by (cases "toString10 n") auto
  with a have d: "isDigit d" by simp
  from assms have nd: "\<not> isDigit ch" by (auto simp: isDigit_def)
  have md: "matchDigits ?name = Some (toString10 n)"
    by (rule matchDigits_suffix [OF nd ne a])
  have pre: "simdPrefix ?name" "\<not> startsWith ?name ''w''"
    using assms by (auto simp: simdPrefix_def startsWith_def)
  have names: "?name \<noteq> ''sp''" "?name \<noteq> ''wzr''" "?name \<noteq> ''xzr''"
    using assms d by (auto simp: ds isDigit_def)
  show ?thesis
    unfolding getRegisterValue_def Let_def
    by (simp only: names pre md p if_False if_True option.case simp_thms)
qed

lemma scanLoop_eq:
  "fst (scanLoop u8 n) = list_all printable (zrun u8) \<and>
   (list_all printable (zrun u8) \<longrightarrow> snd (scanLoop u8 n) = n + length (zrun u8))"
proof (induction u8 arbitrary: n)
  case Nil
  then show ?case by (simp add: zrun_def)
next
  case (Cons b u8)
  show ?case
  proof (cases "b = 0")
    case True
    then show ?thesis by (simp add: zrun_def)
  next
    case False
    show ?thesis
    proof (cases "printable b")
      case True
      then have "\<not> (b < 32 \<or> b > 126)" by (auto simp: printable_def)
      with False True Cons [of "n + 1"] show ?thesis
        by (simp add: zrun_def)
    next
      case np: False
      then have "b < 32 \<or> b > 126" by (auto simp: printable_def)
      with False np show ?thesis by (simp add: zrun_def)
    qed
  qed
qed

lemma zrun_take: "take (length (zrun u8)) u8 = zrun u8"
  unfolding zrun_def by (induction u8) simp_all

lemma zrun_length: "length (zrun u8) \<le> length u8"
  unfolding zrun_def by (rule length_takeWhile_le)

lemma peekString_Some:
  assumes "readByteArray m p 32 = Some u8" and "list_all printable (zrun u8)"
    and "2 < length (zrun u8)"
  shows "peekString m p
           = Some (C_GREEN @ '' => '' @ [CHR 0x22] @ map (\<lambda>b. char_of (unat b)) (zrun u8)
                   @ [CHR 0x22] @ C_RESET)"
proof -
  from scanLoop_eq [of u8 0] assms(2)
  have sc: "scanLoop u8 0 = (True, length (zrun u8))"
    by (cases "scanLoop u8 0") simp
  have "length u8 = 32" using assms(1) by (rule readByteArray_length)
  with zrun_length [of u8] have "length (zrun u8) \<le> 32" by simp
  from readByteArray_prefix [OF assms(1) this]
  have "readByteArray m p (length (zrun u8)) = Some (zrun u8)"
    by (simp add: zrun_take)
  then show ?thesis
    using assms(3) by (simp add: peekString_def STR_PEEK_LEN_def assms(1) sc readUtf8String_def)
qed

lemma peekString_None:
  assumes "readByteArray m p 32 = None \<or>
           (\<exists>u8. readByteArray m p 32 = Some u8 \<and> \<not> (list_all printable (zrun u8) \<and> 2 < length (zrun u8)))"
  shows "peekString m p = None"
  using assms
proof
  assume "readByteArray m p 32 = None"
  then show ?thesis by (simp add: peekString_def STR_PEEK_LEN_def)
next
  assume "\<exists>u8. readByteArray m p 32 = Some u8 \<and> \<not> (list_all printable (zrun u8) \<and> 2 < length (zrun u8))"
  then obtain u8 where rd: "readByteArray m p 32 = Some u8"
    and no: "\<not> (list_all printable (zrun u8) \<and> 2 < length (zrun u8))" by blast
  obtain isString len where sc: "scanLoop u8 0 = (isString, len)" by (cases "scanLoop u8 0")
  from scanLoop_eq [of u8 0] sc no have "\<not> (isString \<and> 2 < len)" by auto
  then show ?thesis
    by (auto simp add: peekString_def STR_PEEK_LEN_def rd sc)
qed

lemma onEnter_pending: "lastInstructionLog (fst (onEnter t)) = None"
  by (simp add: onEnter_def)

lemma watched_idem: "watched c (watched c regs) = watched c regs"
  by (rule ext) (simp add: watched_def)

lemma diffText_watched: "diffText c (watched c regs) = []"
  by (simp add: diffText_def changedRegs_watched)

lemma exFormat: "formatOperandDetails exSession exMemory exCtx (exParse (pc exCtx)) = Inr []"
  by (simp add: formatOperandDetails_def exParse_def)

lemma exPc: "pc exCtx = 0"
  by (simp add: exCtx_def)

lemma exRendered_count: "hitCount (exRendered n) exCtx = Suc n"
  by (simp add: hitCount_def exRendered_def)

lemma exRendered_step:
  "callout exSession exParse exModule exMemory (exRendered n) exCtx
     = Inr (exRendered (Suc n),
            if Suc n \<le> 10 \<or> Suc n mod 100 = 0
            then [renderLine exModule exCtx (exParse 0) []] else [])"
proof (cases "Suc n \<le> 10 \<or> Suc n mod 100 = 0")
  case True
  then have gate: "hitCount (exRendered n) exCtx \<le> 10 \<or> hitCount (exRendered n) exCtx mod 100 = 0"
    by (simp add: exRendered_count)
  from callout_passed [where parse = exParse and c = exCtx, OF gate exFormat, of exModule]
  show ?thesis
    using True
    by (simp add: exRendered_count exPc)
       (simp add: exRendered_def countHit_def hitCount_def watched_idem diffText_watched flushPending_def
          renderLine_nonempty)
next
  case False
  then have a: "10 < hitCount (exRendered n) exCtx" and b: "hitCount (exRendered n) exCtx mod 100 \<noteq> 0"
    by (simp_all add: exRendered_count)
  from callout_suppressed [OF a b, of exSession exParse exModule exMemory]
  show ?thesis
    using False by (simp add: exRendered_def countHit_def hitCount_def)
qed

lemma onEnter_step:
  "callout exSession exParse exModule exMemory (fst (onEnter 0)) exCtx = Inr (exRendered 1, [])"
proof -
  have n: "hitCount (fst (onEnter 0)) exCtx = 1"
    by (simp add: hitCount_def onEnter_def)
  then have gate: "hitCount (fst (onEnter 0)) exCtx \<le> 10 \<or> hitCount (fst (onEnter 0)) exCtx mod 100 = 0"
    by simp
  from callout_passed [where parse = exParse and c = exCtx, OF gate exFormat, of exModule]
  show ?thesis
    by (simp add: exPc) (simp add: exRendered_def countHit_def hitCount_def onEnter_def flushPending_def)
qed

lemma twelve_hits:
  "runHits exSession exParse exModule exMemory (fst (onEnter 0))
     [exCtx, exCtx, exCtx, exCtx, exCtx, exCtx, exCtx, exCtx, exCtx, exCtx, exCtx, exCtx]
   = Inr (exRendered 12,
          [[], [renderLine exModule exCtx (exParse 0) []], [renderLine exModule exCtx (exParse 0) []],
           [renderLine exModule exCtx (exParse 0) []], [renderLine exModule exCtx (exParse 0) []],
           [renderLine exModule exCtx (exParse 0) []], [renderLine exModule exCtx (exParse 0) []],
           [renderLine exModule exCtx (exParse 0) []], [renderLine exModule exCtx (exParse 0) []],
           [renderLine exModule exCtx (exParse 0) []], [], []])"
  by (simp add: onEnter_step exRendered_step del: One_nat_def)


section \<open>Pointer safety (claim C7)\<close>

text \<open>
  Claim C7: for every input value, the pointer-safety predicate returns false when the
  value is null or zero, false when it lies below the floor \<open>0x10000\<close>, false when it
  is not aligned to the word size of eight bytes, and true otherwise. It is a total
  function into the Booleans: no input makes it raise.
\<close>

theorem isSafePointer_spec:
  "isSafePointer v =
     (case v of
        None \<Rightarrow> False
      | Some p \<Rightarrow> p \<noteq> 0 \<and> \<not> p < 0x10000 \<and> unat p mod 8 = 0)"
  by (auto simp add: isSafePointer_def and7_aligned split: option.split)

theorem isSafePointer_spec_witness:
  "isSafePointer (Some 0x10008) \<and> \<not> isSafePointer (Some 0x1000c) \<and>
   \<not> isSafePointer (Some 0xfff8) \<and> \<not> isSafePointer (Some 0) \<and> \<not> isSafePointer None"
  using isSafePointer_spec [of "Some 0x10008"] isSafePointer_spec [of "Some 0x1000c"]
    isSafePointer_spec [of "Some 0xfff8"] isSafePointer_spec [of "Some 0"]
    isSafePointer_spec [of None]
  by simp

section \<open>Stack pointer first (claim C4)\<close>

text \<open>
  Claim C4: for every context snapshot, whatever the session and the memory, looking up
  the name \<^verbatim>\<open>sp\<close> returns the stack-pointer field of the context. The rule stands
  before the suffix rules: \<^verbatim>\<open>sp\<close> starts with \<^verbatim>\<open>s\<close>, so the test of the vector
  rule accepts the name, and that rule would answer with one of its markers.
\<close>

theorem getRegisterValue_sp_first:
  "getRegisterValue g m c ''sp'' = Inr (Ptr (sp c)) \<and> simdPrefix ''sp''
   \<and> matchDigits ''sp'' = None"
  by (simp add: getRegisterValue_def simdPrefix_def startsWith_def matchDigits_def isDigit_def)

section \<open>The loop gate (claim C1)\<close>

text \<open>
  Claim C1: at every callout the counter of the current program counter is incremented
  and stored: in the new state it is \<open>hitCount st c\<close>, the old count plus one, whether
  or not the hit is rendered. The rendering steps (diff, flush, new pending line) run
  if and only if that count is at most 10 or a multiple of 100. When they run, the
  callout is \<open>renderHit\<close> on the counted state, and the new state is the old one with
  the counter stored, the stored renderings overwritten and the new line pending; the
  pending line of before is flushed with the diff. Otherwise the new state is the old
  one with the counter stored and nothing else changed, and nothing is written. The
  two cases can be told apart from outside: a line is written or the pending line
  changes exactly when the gate lets the hit pass. The buffer of a session is readable
  (\<open>simdReadable\<close>), so no exception escapes. The witness gives the states after hits
  10, 11, 100 and 101, and the twelve hits of a fresh activation at one address: hit 1
  writes nothing (no line is pending), hits 2 to 10 each write the line of the hit
  before, hits 11 and 12 write nothing, and the counter ends at 12.
\<close>

theorem callout_gate:
  assumes "simdReadable g m"
  shows "\<exists>st' printed.
           callout g parse md m st c = Inr (st', printed) \<and>
           loopCounter st' = (loopCounter st)(ptrToString (pc c) \<mapsto> hitCount st c) \<and>
           loopCounter st' (ptrToString (pc c)) = Some (hitCount st c) \<and>
           tid st' = tid st \<and>
           ((lastInstructionLog st' \<noteq> lastInstructionLog st \<or> printed \<noteq> [])
              = (hitCount st c \<le> 10 \<or> hitCount st c mod 100 = 0)) \<and>
           (if hitCount st c \<le> 10 \<or> hitCount st c mod 100 = 0
            then renderHit g parse md m (countHit st c) c = Inr (st', printed) \<and>
                 lastRegs st' = watched c (lastRegs st) \<and>
                 printed = flushPending (lastInstructionLog st) (diffText c (lastRegs st)) \<and>
                 (\<exists>ops. formatOperandDetails g m c (parse (pc c)) = Inr ops \<and>
                        lastInstructionLog st' = Some (renderLine md c (parse (pc c)) ops) \<and>
                        st' = st\<lparr>lastRegs := watched c (lastRegs st),
                                  lastInstructionLog := Some (renderLine md c (parse (pc c)) ops),
                                  loopCounter := (loopCounter st)(ptrToString (pc c) \<mapsto> hitCount st c)\<rparr>)
            else st' = countHit st c \<and>
                 st' = st\<lparr>loopCounter := (loopCounter st)(ptrToString (pc c) \<mapsto> hitCount st c)\<rparr> \<and>
                 printed = [])"
proof (cases "hitCount st c \<le> 10 \<or> hitCount st c mod 100 = 0")
  case True
  from formatOperandDetails_total [OF assms] obtain ops
    where ops: "formatOperandDetails g m c (parse (pc c)) = Inr ops" ..
  let ?line = "renderLine md c (parse (pc c)) ops"
  let ?st' = "(countHit st c)\<lparr>lastRegs := watched c (lastRegs st), lastInstructionLog := Some ?line\<rparr>"
  let ?printed = "flushPending (lastInstructionLog st) (diffText c (lastRegs st))"
  have run: "callout g parse md m st c = Inr (?st', ?printed)"
    by (rule callout_passed [where parse = parse and c = c, OF True ops])
  have same: "renderHit g parse md m (countHit st c) c = Inr (?st', ?printed)"
    by (simp add: renderHit_eq [where parse = parse and c = c, OF ops] countHit_fields)
  have seen: "lastInstructionLog ?st' \<noteq> lastInstructionLog st \<or> ?printed \<noteq> []"
    using renderLine_nonempty [of md c "parse (pc c)" ops]
    by (cases "lastInstructionLog st") (auto simp: flushPending_def)
  have post: "?st' = st\<lparr>lastRegs := watched c (lastRegs st), lastInstructionLog := Some ?line,
                          loopCounter := (loopCounter st)(ptrToString (pc c) \<mapsto> hitCount st c)\<rparr>"
    by (simp add: countHit_def)
  have cnt: "loopCounter ?st' = (loopCounter st)(ptrToString (pc c) \<mapsto> hitCount st c)"
    by (simp add: countHit_def)
  show ?thesis
    using True run same seen ops post cnt
    by (intro exI [of _ ?st'] exI [of _ ?printed]) (simp add: countHit_fields)
next
  case False
  then have "callout g parse md m st c = Inr (countHit st c, [])"
    by (intro callout_suppressed) auto
  moreover have "countHit st c = st\<lparr>loopCounter := (loopCounter st)(ptrToString (pc c) \<mapsto> hitCount st c)\<rparr>"
    by (simp add: countHit_def)
  ultimately show ?thesis
    using False by (simp add: countHit_fields)
qed

theorem callout_gate_witness:
  "simdReadable exSession exMemory \<and>
   callout exSession exParse exModule exMemory (exState 9 None) exCtx = Inr (exRendered 10, []) \<and>
   callout exSession exParse exModule exMemory (exRendered 10) exCtx = Inr (exRendered 11, []) \<and>
   callout exSession exParse exModule exMemory (exRendered 99) exCtx
     = Inr (exRendered 100, [renderLine exModule exCtx (exParse 0) []]) \<and>
   callout exSession exParse exModule exMemory (exRendered 100) exCtx = Inr (exRendered 101, []) \<and>
   runHits exSession exParse exModule exMemory (fst (onEnter 0))
     [exCtx, exCtx, exCtx, exCtx, exCtx, exCtx, exCtx, exCtx, exCtx, exCtx, exCtx, exCtx]
   = Inr (exRendered 12,
          [[], [renderLine exModule exCtx (exParse 0) []], [renderLine exModule exCtx (exParse 0) []],
           [renderLine exModule exCtx (exParse 0) []], [renderLine exModule exCtx (exParse 0) []],
           [renderLine exModule exCtx (exParse 0) []], [renderLine exModule exCtx (exParse 0) []],
           [renderLine exModule exCtx (exParse 0) []], [renderLine exModule exCtx (exParse 0) []],
           [renderLine exModule exCtx (exParse 0) []], [], []])"
proof -
  let ?line = "renderLine exModule exCtx (exParse 0) []"
  have h: "simdReadable exSession exMemory"
    by (simp add: simdReadable_def exSession_def)
  have n: "hitCount (exState k p) exCtx = k + 1" "hitCount (exRendered k) exCtx = k + 1" for k p
    by (simp_all add: hitCount_def exState_def exRendered_def)
  have fields:
    "lastInstructionLog (exState k None) = None" "lastRegs (exState k None) = Map.empty"
    "lastInstructionLog (exRendered k) = Some ?line" "lastRegs (exRendered k) = watched exCtx Map.empty"
    for k
    by (simp_all add: exState_def exRendered_def)
  have upd:
    "(exState k None)\<lparr>lastRegs := watched exCtx Map.empty, lastInstructionLog := Some ?line,
        loopCounter := (loopCounter (exState k None))(ptrToString (pc exCtx) \<mapsto> j)\<rparr> = exRendered j"
    "(exRendered k)\<lparr>lastRegs := watched exCtx Map.empty, lastInstructionLog := Some ?line,
        loopCounter := (loopCounter (exRendered k))(ptrToString (pc exCtx) \<mapsto> j)\<rparr> = exRendered j"
    "(exRendered k)\<lparr>loopCounter := (loopCounter (exRendered k))(ptrToString (pc exCtx) \<mapsto> j)\<rparr>
       = exRendered j"
    for k j
    by (simp_all add: exState_def exRendered_def)
  have ops: "formatOperandDetails exSession exMemory exCtx (exParse (pc exCtx)) = Inr ops \<longleftrightarrow> ops = []" for ops
    by (auto simp: exFormat)
  have ln: "renderLine exModule exCtx (exParse (pc exCtx)) [] = ?line"
    by (simp add: exPc)
  from callout_gate [OF h, of exParse exModule "exState 9 None" exCtx]
  have one: "callout exSession exParse exModule exMemory (exState 9 None) exCtx = Inr (exRendered 10, [])"
    by (auto simp: n fields ops ln upd flushPending_def)
  from callout_gate [OF h, of exParse exModule "exRendered 10" exCtx]
  have two: "callout exSession exParse exModule exMemory (exRendered 10) exCtx = Inr (exRendered 11, [])"
    by (auto simp: n upd)
  from callout_gate [OF h, of exParse exModule "exRendered 99" exCtx]
  have three: "callout exSession exParse exModule exMemory (exRendered 99) exCtx
                 = Inr (exRendered 100, [?line])"
    by (auto simp: n fields ops ln upd flushPending_def watched_idem diffText_watched
          renderLine_nonempty)
  from callout_gate [OF h, of exParse exModule "exRendered 100" exCtx]
  have four: "callout exSession exParse exModule exMemory (exRendered 100) exCtx = Inr (exRendered 101, [])"
    by (auto simp: n upd)
  from h one two three four twelve_hits show ?thesis
    by (simp only: simp_thms)
qed

section \<open>Suppressed hits change the counter only (claim C10)\<close>

text \<open>
  Claim C10: a hit suppressed by the gate (count above 10 and not a multiple of 100)
  writes nothing and changes the trace state in the hit counter of its program counter
  only: stored renderings, pending line and thread id stay. So the next hit that
  passes the gate flushes the pending line with the diff against the renderings stored
  before the suppressed hit; and when those were stored by a passing hit at context
  \<open>c0\<close>, the registers it reports are the watched registers whose rendering differs
  between \<open>c0\<close> and the new context, whatever the suppressed instruction's context was.
\<close>

theorem suppressed_hit_frame:
  assumes "10 < hitCount st c" and "hitCount st c mod 100 \<noteq> 0"
  shows "\<exists>st'. callout g parse md m st c = Inr (st', []) \<and>
           st' = st\<lparr>loopCounter := (loopCounter st)(ptrToString (pc c) \<mapsto> hitCount st c)\<rparr> \<and>
           lastRegs st' = lastRegs st \<and> lastInstructionLog st' = lastInstructionLog st \<and>
           tid st' = tid st \<and>
           (\<forall>c' m' md'. simdReadable g m' \<and> (hitCount st' c' \<le> 10 \<or> hitCount st' c' mod 100 = 0) \<longrightarrow>
              (\<exists>st''. callout g parse md' m' st' c'
                        = Inr (st'', flushPending (lastInstructionLog st) (diffText c' (lastRegs st))))) \<and>
           (\<forall>c0 regs c'. lastRegs st = watched c0 regs \<longrightarrow>
              changedRegs c' (lastRegs st')
                = filter (\<lambda>r. regText c' r \<noteq> regText c0 r) GENERAL_REGS)"
proof -
  let ?st' = "countHit st c"
  have run: "callout g parse md m st c = Inr (?st', [])"
    using assms by (rule callout_suppressed)
  have nxt: "\<exists>st''. callout g parse md' m' ?st' c'
                = Inr (st'', flushPending (lastInstructionLog st) (diffText c' (lastRegs st)))"
    if ok: "simdReadable g m'" and gate: "hitCount ?st' c' \<le> 10 \<or> hitCount ?st' c' mod 100 = 0"
    for c' m' md'
  proof -
    from formatOperandDetails_total [OF ok] obtain ops
      where ops: "formatOperandDetails g m' c' (parse (pc c')) = Inr ops" ..
    from callout_passed [where parse = parse and c = c', OF gate ops, of md']
    show ?thesis by (simp add: countHit_fields)
  qed
  show ?thesis
    using run nxt
    by (intro exI [of _ ?st']) (auto simp: countHit_fields countHit_def changedRegs_watched)
qed

theorem suppressed_hit_frame_witness:
  "10 < hitCount (exState 10 (Some ''L'')) exCtx \<and>
   hitCount (exState 10 (Some ''L'')) exCtx mod 100 \<noteq> 0 \<and>
   callout exSession exParse exModule exMemory (exState 10 (Some ''L'')) exCtx
     = Inr (exState 11 (Some ''L''), [])"
proof -
  have n: "hitCount (exState 10 (Some ''L'')) exCtx = 11"
    by (simp add: hitCount_def exState_def)
  have a: "10 < hitCount (exState 10 (Some ''L'')) exCtx"
    and b: "hitCount (exState 10 (Some ''L'')) exCtx mod 100 \<noteq> 0"
    by (simp_all add: n)
  let ?st = "exState 10 (Some ''L'')"
  from suppressed_hit_frame [OF a b, of exSession exParse exModule exMemory]
  have "callout exSession exParse exModule exMemory ?st exCtx
          = Inr (?st\<lparr>loopCounter := (loopCounter ?st)(ptrToString (pc exCtx) \<mapsto> hitCount ?st exCtx)\<rparr>, [])"
    by blast
  moreover have "?st\<lparr>loopCounter := (loopCounter ?st)(ptrToString (pc exCtx) \<mapsto> 11)\<rparr>
                   = exState 11 (Some ''L'')"
    by (simp add: exState_def)
  ultimately show ?thesis
    using a b by (simp add: n)
qed

section \<open>Deferred printing (claim C2)\<close>

text \<open>
  Claim C2: at a callout that passes the gate, the pending line (if any) is written,
  followed by the register diff computed at this callout, and nothing else is written;
  the rendering of the current instruction becomes the pending line. On function exit
  the pending line is written as it is, with no diff, before the exit banner. The
  pending line is never the empty string: \<open>onEnter\<close> starts with none, a passing hit
  stores a non-empty line, and a suppressed hit leaves it (claim C10).
\<close>

theorem deferred_print:
  assumes "simdReadable g m"
    and "hitCount st c \<le> 10 \<or> hitCount st c mod 100 = 0"
    and "lastInstructionLog st \<noteq> Some []"
  shows "\<exists>st' ops.
           formatOperandDetails g m c (parse (pc c)) = Inr ops \<and>
           callout g parse md m st c
             = Inr (st', case lastInstructionLog st of
                           None \<Rightarrow> []
                         | Some l \<Rightarrow> [l @ diffText c (lastRegs st)]) \<and>
           lastInstructionLog st' = Some (renderLine md c (parse (pc c)) ops) \<and>
           lastInstructionLog st' \<noteq> Some [] \<and>
           onLeave st' retval = [renderLine md c (parse (pc c)) ops, exitBanner retval] \<and>
           onLeave st retval
             = (case lastInstructionLog st of None \<Rightarrow> [] | Some l \<Rightarrow> [l]) @ [exitBanner retval]"
proof -
  from formatOperandDetails_total [OF assms(1)] obtain ops
    where ops: "formatOperandDetails g m c (parse (pc c)) = Inr ops" ..
  let ?line = "renderLine md c (parse (pc c)) ops"
  let ?st' = "(countHit st c)\<lparr>lastRegs := watched c (lastRegs st), lastInstructionLog := Some ?line\<rparr>"
  have ne: "?line \<noteq> []" by (rule renderLine_nonempty)
  have fl: "flushPending (lastInstructionLog st) sfx
              = (case lastInstructionLog st of None \<Rightarrow> [] | Some l \<Rightarrow> [l @ sfx])" for sfx
    using assms(3) by (cases "lastInstructionLog st") (auto simp: flushPending_def)
  have run: "callout g parse md m st c = Inr (?st', flushPending (lastInstructionLog st) (diffText c (lastRegs st)))"
    by (rule callout_passed [where parse = parse and c = c, OF assms(2) ops])
  have leave: "onLeave ?st' retval = [?line, exitBanner retval]"
    using ne by (simp add: onLeave_def flushPending_def)
  have leave0: "onLeave st retval
                  = (case lastInstructionLog st of None \<Rightarrow> [] | Some l \<Rightarrow> [l]) @ [exitBanner retval]"
    using fl [of "[]"] by (simp add: onLeave_def split: option.split)
  show ?thesis
    using ops run leave leave0 ne
    by (intro exI [of _ ?st'] exI [of _ ops]) (simp add: fl)
qed


theorem deferred_print_witness:
  "simdReadable exSession exMemory \<and>
   hitCount (exState 0 (Some ''L'')) exCtx \<le> 10 \<and>
   lastInstructionLog (exState 0 (Some ''L'')) \<noteq> Some [] \<and>
   (\<exists>st'. callout exSession exParse exModule exMemory (exState 0 (Some ''L'')) exCtx
            = Inr (st', [''L'' @ diffText exCtx Map.empty]) \<and>
          lastInstructionLog st' = Some (renderLine exModule exCtx (exParse 0) []) \<and>
          onLeave st' 5 = [renderLine exModule exCtx (exParse 0) [], exitBanner 5])"
proof -
  let ?st = "exState 0 (Some ''L'')"
  have h: "simdReadable exSession exMemory"
    by (simp add: simdReadable_def exSession_def)
  have n: "hitCount ?st exCtx = 1"
    by (simp add: hitCount_def exState_def)
  then have gate: "hitCount ?st exCtx \<le> 10 \<or> hitCount ?st exCtx mod 100 = 0"
    by simp
  have inv: "lastInstructionLog ?st \<noteq> Some []"
    by (simp add: exState_def)
  have ops: "formatOperandDetails exSession exMemory exCtx (exParse 0) = Inr []"
    by (simp add: formatOperandDetails_def exParse_def)
  have st: "lastInstructionLog ?st = Some ''L''" "lastRegs ?st = Map.empty" "pc exCtx = 0"
    by (simp_all add: exState_def exCtx_def)
  from deferred_print [OF h gate inv, of exParse exModule 5]
  show ?thesis
    using h n inv by (auto simp: ops st)
qed


section \<open>The transform retains every instruction (claim C9)\<close>

text \<open>
  Claim C9, as the code has it: the transform of a block (the iterator yields at least
  one instruction) retains every instruction, in order, whether or not its address lies
  in the target module. For an instruction of the target module it inserts the
  rendering callout before the instruction, and before that the vector-capture callout
  when the C module compiled (\<^verbatim>\<open>if (cm)\<close>); for any other instruction it inserts
  nothing.
\<close>

theorem transform_keeps_all:
  assumes "block \<noteq> []"
  shows "\<exists>ops. transform g gm t block = Inr ops \<and>
           kept ops = block \<and>
           ops = concat (map (\<lambda>i. instrument g gm t i @ [Keep i]) block) \<and>
           (\<forall>i \<in> set block. \<forall>md. gm (address i) = Some md \<and> mod_name md = t \<longrightarrow>
              instrument g gm t i
                = (if cm g then [PutCalloutC (simdBuffer g), PutCalloutJS md] else [PutCalloutJS md])) \<and>
           (\<forall>i \<in> set block. gm (address i) = None \<or> (\<exists>md. gm (address i) = Some md \<and> mod_name md \<noteq> t)
              \<longrightarrow> instrument g gm t i = [])"
proof -
  from assms obtain i rest where b: "block = i # rest" by (cases block) auto
  have "transform g gm t block = Inr (concat (map (\<lambda>i. instrument g gm t i @ [Keep i]) block))"
    unfolding b transform_def by (simp only: list.case transformLoop_eq)
  moreover have "instrument g gm t i
                   = (if cm g then [PutCalloutC (simdBuffer g), PutCalloutJS md] else [PutCalloutJS md])"
    if "gm (address i) = Some md \<and> mod_name md = t" for i md
    using that by (simp add: instrument_def)
  moreover have "instrument g gm t i = []"
    if "gm (address i) = None \<or> (\<exists>md. gm (address i) = Some md \<and> mod_name md \<noteq> t)" for i
    using that by (auto simp: instrument_def)
  ultimately show ?thesis
    by (simp add: kept_concat)
qed

theorem transform_keeps_all_witness:
  "[exParse 0, exParse 4] \<noteq> [] \<and>
   transform \<lparr>cm = True, simdBuffer = Some 64\<rparr> (\<lambda>a. if a = 0 then Some exModule else None)
       ''libnative-lib.so'' [exParse 0, exParse 4]
     = Inr [PutCalloutC (Some 64), PutCalloutJS exModule, Keep (exParse 0), Keep (exParse 4)]"
proof -
  have ne: "[exParse 0, exParse 4] \<noteq> []" by simp
  from transform_keeps_all [OF ne, of "\<lparr>cm = True, simdBuffer = Some 64\<rparr>"
      "\<lambda>a. if a = 0 then Some exModule else None" "''libnative-lib.so''"]
  show ?thesis
    by (auto simp: instrument_def exParse_def exModule_def)
qed

text \<open>
  The claim as stated promises the capture callout for every instruction of the target
  module. With \<^verbatim>\<open>cm\<close> null (the C module did not compile) the transform inserts the
  rendering callout alone.
\<close>

theorem transform_capture_counterexample:
  "transform exSession (\<lambda>a. Some exModule) ''libnative-lib.so'' [exParse 0]
     = Inr [PutCalloutJS exModule, Keep (exParse 0)]"
  by (simp add: transform_def instrument_def exSession_def exModule_def)

section \<open>Register lookup always answers (claim C3)\<close>

text \<open>
  Claim C3: for every context and every register name, the lookup returns without
  raising, and what it returns is a pointer, \<^verbatim>\<open>undefined\<close> (unavailable), one of the
  markers \<^verbatim>\<open>(No-CModule)\<close>, \<^verbatim>\<open>?\<close>, \<^verbatim>\<open>(SIMD-OOB)\<close>, or the hex literal of 16
  bytes. The one read of the function goes to the shadow buffer, which
  \<^verbatim>\<open>Memory.alloc\<close> made readable (\<open>simdReadable\<close>).
\<close>

theorem getRegisterValue_defined:
  assumes "simdReadable g m"
  shows "\<exists>v. getRegisterValue g m c regName = Inr v \<and>
           (case v of
              Ptr p \<Rightarrow> True
            | Undefined \<Rightarrow> True
            | Str s \<Rightarrow> s = ''(No-CModule)'' \<or> s = ''?'' \<or> s = ''(SIMD-OOB)'' \<or>
                       (\<exists>u8. length u8 = 16 \<and> s = ''0x'' @ concat (map byteHex (rev u8))))"
proof (cases "simdBuffer g")
  case None
  then show ?thesis
    by (simp add: getRegisterValue_def Let_def split: option.split)
next
  case (Some buf)
  with assms have rd: "readByteArray m buf 256 \<noteq> None"
    by (simp add: simdReadable_def)
  show ?thesis
  proof (cases "simdPrefix regName \<and> (\<exists>d. matchDigits regName = Some d \<and> parseInt d < 16)")
    case True
    then obtain d where d: "matchDigits regName = Some d" "parseInt d < 16" by blast
    from d(2) have "parseInt d * 16 + 16 \<le> 256" by simp
    from readByteArray_window [OF rd this]
    obtain u8 where u8: "readByteArray m (buf + of_nat (parseInt d * 16)) 16 = Some u8" by blast
    have len: "length u8 = 16" using u8 by (rule readByteArray_length)
    note hex = toHex128_eq [OF u8]
    from True d Some len hex show ?thesis
      by (auto simp add: getRegisterValue_def Let_def split: option.split)
  next
    case False
    with Some show ?thesis
      by (auto simp add: getRegisterValue_def Let_def split: option.split)
  qed
qed

theorem getRegisterValue_defined_witness:
  "simdReadable vecSession vecMemory \<and>
   (\<exists>v. getRegisterValue vecSession vecMemory exCtx ''q1'' = Inr v \<and>
        v = Str ''0x1f1e1d1c1b1a19181716151413121110'') \<and>
   (\<exists>v. getRegisterValue vecSession vecMemory exCtx ''x29'' = Inr v \<and> v = Undefined) \<and>
   (\<exists>v. getRegisterValue vecSession vecMemory exCtx ''w3'' = Inr v \<and> v = Ptr 0)"
proof -
  have h: "simdReadable vecSession vecMemory" by code_simp
  from getRegisterValue_defined [OF h, of exCtx "''q1''"] obtain v1
    where v1: "getRegisterValue vecSession vecMemory exCtx ''q1'' = Inr v1" by blast
  from getRegisterValue_defined [OF h, of exCtx "''x29''"] obtain v2
    where v2: "getRegisterValue vecSession vecMemory exCtx ''x29'' = Inr v2" by blast
  from getRegisterValue_defined [OF h, of exCtx "''w3''"] obtain v3
    where v3: "getRegisterValue vecSession vecMemory exCtx ''w3'' = Inr v3" by blast
  have e1: "getRegisterValue vecSession vecMemory exCtx ''q1''
              = Inr (Str ''0x1f1e1d1c1b1a19181716151413121110'')"
    by code_simp
  have e2: "getRegisterValue vecSession vecMemory exCtx ''x29'' = Inr Undefined"
    by code_simp
  have e3: "getRegisterValue vecSession vecMemory exCtx ''w3'' = Inr (Ptr 0)"
    by code_simp
  from v1 e1 have "v1 = Str ''0x1f1e1d1c1b1a19181716151413121110''" by simp
  moreover from v2 e2 have "v2 = Undefined" by simp
  moreover from v3 e3 have "v3 = Ptr 0" by simp
  ultimately show ?thesis using h v1 v2 v3 by simp
qed

section \<open>Vector lookup (claim C5)\<close>

text \<open>
  Claim C5: for a name made of one of the prefixes \<^verbatim>\<open>q d s h b\<close> and the decimal
  index \<open>n\<close>: when the bridge failed (no buffer) the lookup returns the marker
  \<^verbatim>\<open>(No-CModule)\<close>; with a buffer and \<open>n \<ge> 16\<close> it returns the marker
  \<^verbatim>\<open>(SIMD-OOB)\<close>; with a buffer, \<open>n < 16\<close> and the 16 bytes \<open>u8\<close> at offset \<open>16 n\<close>
  of the buffer, it returns \<^verbatim>\<open>0x\<close> followed by the two hex digits of byte 15, then
  of byte 14, down to byte 0, and decoding the digits gives back the captured bytes
  in reverse order. A session has no buffer when \<^verbatim>\<open>new CModule\<close> raised or
  \<^verbatim>\<open>Memory.alloc\<close> raised (\<open>initSession\<close>).
\<close>

theorem vector_lookup:
  assumes "ch \<in> set ''qdshb''"
  shows "(simdBuffer g = None \<longrightarrow>
            getRegisterValue g m c (ch # toString10 n) = Inr (Str ''(No-CModule)'')) \<and>
         (\<forall>buf. simdBuffer g = Some buf \<and> 16 \<le> n \<longrightarrow>
            getRegisterValue g m c (ch # toString10 n) = Inr (Str ''(SIMD-OOB)'')) \<and>
         (\<forall>buf u8. simdBuffer g = Some buf \<and> n < 16 \<and>
                    readByteArray m (buf + of_nat (n * 16)) 16 = Some u8 \<longrightarrow>
            getRegisterValue g m c (ch # toString10 n)
              = Inr (Str (''0x'' @ concat (map byteHex (rev u8)))) \<and>
            decodeHex (concat (map byteHex (rev u8))) = Some (rev u8)) \<and>
         getRegisterValue (initSession False allocated) m c (ch # toString10 n)
           = Inr (Str ''(No-CModule)'') \<and>
         getRegisterValue (initSession True None) m c (ch # toString10 n)
           = Inr (Str ''(No-CModule)'')"
  by (auto simp: vector_name [OF assms] toHex128_eq decodeHex_concat initSession_def
      simp del: of_nat_mult)

theorem vector_lookup_witness:
  "CHR ''q'' \<in> set ''qdshb'' \<and>
   getRegisterValue vecSession vecMemory exCtx ''q1''
     = Inr (Str ''0x1f1e1d1c1b1a19181716151413121110'') \<and>
   decodeHex ''1f1e1d1c1b1a19181716151413121110''
     = Some [31, 30, 29, 28, 27, 26, 25, 24, 23, 22, 21, 20, 19, 18, 17, 16] \<and>
   getRegisterValue vecSession vecMemory exCtx ''q16'' = Inr (Str ''(SIMD-OOB)'') \<and>
   getRegisterValue exSession exMemory exCtx ''q1'' = Inr (Str ''(No-CModule)'')"
proof -
  have a: "CHR ''q'' \<in> set ''qdshb''" by simp
  have buf: "simdBuffer vecSession = Some 0x100000" "simdBuffer exSession = None"
    by (simp_all add: vecSession_def exSession_def)
  have rd: "readByteArray vecMemory (0x100000 + of_nat (1 * 16)) 16
              = Some [16, 17, 18, 19, 20, 21, 22, 23, 24, 25, 26, 27, 28, 29, 30, 31]"
    by code_simp
  have hex: "concat (map byteHex (rev [16, 17, 18, 19, 20, 21, 22, 23, 24, 25, 26, 27, 28, 29, 30, 31]))
               = ''1f1e1d1c1b1a19181716151413121110''"
    by code_simp
  have ts: "toString10 1 = ''1''" "toString10 16 = ''16''"
    by (simp_all add: toString10.simps digitChar_def)
  from vector_lookup [OF a, of vecSession vecMemory exCtx 1] buf(1) rd
  have "getRegisterValue vecSession vecMemory exCtx (CHR ''q'' # toString10 1)
          = Inr (Str (''0x'' @ concat (map byteHex (rev [16, 17, 18, 19, 20, 21, 22, 23, 24, 25, 26, 27, 28, 29, 30, 31]))))
        \<and> decodeHex (concat (map byteHex (rev [16, 17, 18, 19, 20, 21, 22, 23, 24, 25, 26, 27, 28, 29, 30, 31])))
          = Some (rev [16, 17, 18, 19, 20, 21, 22, 23, 24, 25, 26, 27, 28, 29, 30, 31])"
    by simp
  then have one: "getRegisterValue vecSession vecMemory exCtx ''q1''
                    = Inr (Str ''0x1f1e1d1c1b1a19181716151413121110'')"
    and two: "decodeHex ''1f1e1d1c1b1a19181716151413121110''
                = Some [31, 30, 29, 28, 27, 26, 25, 24, 23, 22, 21, 20, 19, 18, 17, 16]"
    unfolding hex ts by simp_all
  from vector_lookup [OF a, of vecSession vecMemory exCtx 16] buf(1)
  have three: "getRegisterValue vecSession vecMemory exCtx ''q16'' = Inr (Str ''(SIMD-OOB)'')"
    unfolding ts by simp
  from vector_lookup [OF a, of exSession exMemory exCtx 1] buf(2)
  have four: "getRegisterValue exSession exMemory exCtx ''q1'' = Inr (Str ''(No-CModule)'')"
    unfolding ts by simp
  from a one two three four show ?thesis by simp
qed


section \<open>Memory operands (claim C6)\<close>

text \<open>
  Claim C6, as the code has it: a memory operand is always printed with its symbolic
  base+displacement form. Without a base register, or when the lookup of the base does
  not give a pointer, the effective address is shown as \<^verbatim>\<open>N/A\<close>. When the base
  resolves, the effective address (base plus displacement) is shown; when the load of
  one word from it succeeds, the loaded value and its memory-inspection annotation
  follow; when the load fails, nothing follows. A lone memory operand is wrapped in
  parentheses by \<open>formatOperandDetails\<close>.
\<close>

theorem mem_operand_detail:
  "(b = None \<or> b = Some [] \<longrightarrow>
      operandDetail g m c (OpMem b i d) = Inr (Some (memSymbolic b d @ ''N/A''))) \<and>
   (\<forall>bn v. b = Some bn \<and> bn \<noteq> [] \<and> getRegisterValue g m c bn = Inr v \<and> (\<forall>p. v \<noteq> Ptr p) \<longrightarrow>
      operandDetail g m c (OpMem b i d) = Inr (Some (memSymbolic b d @ ''N/A''))) \<and>
   (\<forall>bn p. b = Some bn \<and> bn \<noteq> [] \<and> getRegisterValue g m c bn = Inr (Ptr p) \<and>
            readPointer m (p + word_of_int d) = None \<longrightarrow>
      operandDetail g m c (OpMem b i d)
        = Inr (Some (memSymbolic b d @ ptrToString (p + word_of_int d)))) \<and>
   (\<forall>bn p w. b = Some bn \<and> bn \<noteq> [] \<and> getRegisterValue g m c bn = Inr (Ptr p) \<and>
            readPointer m (p + word_of_int d) = Some w \<longrightarrow>
      operandDetail g m c (OpMem b i d)
        = Inr (Some (memSymbolic b d @ ptrToString (p + word_of_int d)
                     @ '' '' @ C_BLUE @ ''[val='' @ ptrToString w @ '']'' @ C_RESET
                     @ inspectMemory m (Some w)))) \<and>
   (\<forall>instr s. operands instr = [OpMem b i d] \<and> operandDetail g m c (OpMem b i d) = Inr (Some s) \<longrightarrow>
      formatOperandDetails g m c instr = Inr (''('' @ s @ '')''))"
proof -
  have absent: "operandDetail g m c (OpMem b i d) = Inr (Some (memSymbolic b d @ ''N/A''))"
    if "b = None \<or> b = Some []"
    using that by (auto simp: operandDetail_def memSymbolic_def Let_def)
  have unresolved: "operandDetail g m c (OpMem b i d) = Inr (Some (memSymbolic b d @ ''N/A''))"
    if "b = Some bn" "bn \<noteq> []" "getRegisterValue g m c bn = Inr v" "\<forall>p. v \<noteq> Ptr p" for bn v
    using that by (cases v) (simp_all add: operandDetail_def memSymbolic_def Let_def)
  have resolved: "operandDetail g m c (OpMem b i d)
          = Inr (Some (memSymbolic b d @ ptrToString (p + word_of_int d) @ memContentOf m (p + word_of_int d)))"
    if "b = Some bn" "bn \<noteq> []" "getRegisterValue g m c bn = Inr (Ptr p)" for bn p
    using that by (simp add: operandDetail_def memSymbolic_def Let_def)
  have fmt: "formatOperandDetails g m c instr = Inr (''('' @ s @ '')'')"
    if "operands instr = [OpMem b i d]" "operandDetail g m c (OpMem b i d) = Inr (Some s)" for instr s
    using that by (simp add: formatOperandDetails_def)
  have failed: "operandDetail g m c (OpMem b i d)
          = Inr (Some (memSymbolic b d @ ptrToString (p + word_of_int d)))"
    if "b = Some bn" "bn \<noteq> []" "getRegisterValue g m c bn = Inr (Ptr p)"
      "readPointer m (p + word_of_int d) = None" for bn p
    unfolding resolved [OF that(1,2,3)] by (simp add: memContentOf_def that(4))
  have loaded: "operandDetail g m c (OpMem b i d)
          = Inr (Some (memSymbolic b d @ ptrToString (p + word_of_int d)
                       @ '' '' @ C_BLUE @ ''[val='' @ ptrToString w @ '']'' @ C_RESET
                       @ inspectMemory m (Some w)))"
    if "b = Some bn" "bn \<noteq> []" "getRegisterValue g m c bn = Inr (Ptr p)"
      "readPointer m (p + word_of_int d) = Some w" for bn p w
    unfolding resolved [OF that(1,2,3)] by (simp add: memContentOf_def that(4))
  show ?thesis
  proof (intro conjI allI impI)
    assume "b = None \<or> b = Some []"
    then show "operandDetail g m c (OpMem b i d) = Inr (Some (memSymbolic b d @ ''N/A''))"
      by (rule absent)
  next
    fix bn v
    assume "b = Some bn \<and> bn \<noteq> [] \<and> getRegisterValue g m c bn = Inr v \<and> (\<forall>p. v \<noteq> Ptr p)"
    then show "operandDetail g m c (OpMem b i d) = Inr (Some (memSymbolic b d @ ''N/A''))"
      using unresolved by blast
  next
    fix bn p
    assume "b = Some bn \<and> bn \<noteq> [] \<and> getRegisterValue g m c bn = Inr (Ptr p) \<and>
            readPointer m (p + word_of_int d) = None"
    then show "operandDetail g m c (OpMem b i d)
                 = Inr (Some (memSymbolic b d @ ptrToString (p + word_of_int d)))"
      using failed by blast
  next
    fix bn p w
    assume "b = Some bn \<and> bn \<noteq> [] \<and> getRegisterValue g m c bn = Inr (Ptr p) \<and>
            readPointer m (p + word_of_int d) = Some w"
    then show "operandDetail g m c (OpMem b i d)
        = Inr (Some (memSymbolic b d @ ptrToString (p + word_of_int d)
                     @ '' '' @ C_BLUE @ ''[val='' @ ptrToString w @ '']'' @ C_RESET
                     @ inspectMemory m (Some w)))"
      using loaded by blast
  next
    fix instr :: instruction and s
    assume "operands instr = [OpMem b i d] \<and> operandDetail g m c (OpMem b i d) = Inr (Some s)"
    then show "formatOperandDetails g m c instr = Inr (''('' @ s @ '')'')"
      using fmt by blast
  qed
qed

theorem mem_operand_detail_witness:
  "getRegisterValue vecSession vecMemory exCtx ''xzr'' = Inr (Ptr 0) \<and>
   readPointer vecMemory 0x100000 = Some 0x0706050403020100 \<and>
   operandDetail vecSession vecMemory exCtx (OpMem (Some ''xzr'') None 0x100000)
     = Inr (Some (memSymbolic (Some ''xzr'') 0x100000 @ ptrToString 0x100000
                  @ '' '' @ C_BLUE @ ''[val='' @ ptrToString 0x0706050403020100 @ '']'' @ C_RESET
                  @ inspectMemory vecMemory (Some 0x0706050403020100))) \<and>
   operandDetail vecSession vecMemory exCtx (OpMem None None 8)
     = Inr (Some (memSymbolic None 8 @ ''N/A'')) \<and>
   readPointer exMemory 0x100000 = None \<and>
   operandDetail exSession exMemory exCtx (OpMem (Some ''xzr'') None 0x100000)
     = Inr (Some (memSymbolic (Some ''xzr'') 0x100000 @ ptrToString 0x100000))"
proof -
  have reg: "getRegisterValue g m exCtx ''xzr'' = Inr (Ptr 0)" for g m
    by (simp add: getRegisterValue_def)
  have load: "readPointer vecMemory 0x100000 = Some 0x0706050403020100"
    by code_simp
  have fail: "readPointer exMemory 0x100000 = None"
    by (simp add: readPointer_def exMemory_def eval_nat_numeral)
  from mem_operand_detail [where b = "Some ''xzr''" and g = vecSession and m = vecMemory
      and c = exCtx and i = None and d = "0x100000"] reg load
  have one: "operandDetail vecSession vecMemory exCtx (OpMem (Some ''xzr'') None 0x100000)
     = Inr (Some (memSymbolic (Some ''xzr'') 0x100000 @ ptrToString 0x100000
                  @ '' '' @ C_BLUE @ ''[val='' @ ptrToString 0x0706050403020100 @ '']'' @ C_RESET
                  @ inspectMemory vecMemory (Some 0x0706050403020100)))"
    by simp
  from mem_operand_detail [where b = None and g = vecSession and m = vecMemory
      and c = exCtx and i = None and d = 8]
  have two: "operandDetail vecSession vecMemory exCtx (OpMem None None 8)
     = Inr (Some (memSymbolic None 8 @ ''N/A''))"
    by simp
  from mem_operand_detail [where b = "Some ''xzr''" and g = exSession and m = exMemory
      and c = exCtx and i = None and d = "0x100000"] reg fail
  have three: "operandDetail exSession exMemory exCtx (OpMem (Some ''xzr'') None 0x100000)
     = Inr (Some (memSymbolic (Some ''xzr'') 0x100000 @ ptrToString 0x100000))"
    by simp
  from reg load fail one two three show ?thesis by simp
qed

text \<open>
  The claim as stated shows the effective address as unavailable when the load fails.
  The script sets \<^verbatim>\<open>memAddress\<close> before the \<^verbatim>\<open>try\<close> block, so a failed load
  leaves the computed address in the output: base \<^verbatim>\<open>x0\<close> holding 0, displacement 16,
  no readable memory.
\<close>

theorem mem_operand_counterexample:
  "readPointer exMemory (xreg exCtx 0 + 16) = None \<and>
   operandDetail exSession exMemory exCtx (OpMem (Some ''x0'') None 16)
     = Inr (Some ''[x0+16]=0x10'')"
proof -
  have load: "readPointer exMemory (xreg exCtx 0 + 16) = None"
    by (simp add: readPointer_def exMemory_def eval_nat_numeral)
  have reg: "getRegisterValue exSession exMemory exCtx ''x0'' = Inr (Ptr (xreg exCtx 0))"
    by (simp add: getRegisterValue_def startsWith_def simdPrefix_def ctxProp_x)
  have x0: "xreg exCtx 0 = 0" by (simp add: exCtx_def)
  have str: "ptrToString 16 = ''0x10''" "intToString 16 = ''16''"
    by (simp_all add: ptrToString_def intToString_def toString16.simps toString10.simps digitChar_def)
  have "operandDetail exSession exMemory exCtx (OpMem (Some ''x0'') None 16)
          = Inr (Some (''[x0+'' @ intToString 16 @ '']='' @ ptrToString (xreg exCtx 0 + 16)
                       @ memContentOf exMemory (xreg exCtx 0 + 16)))"
    by (simp add: operandDetail_def reg Let_def)
  also have "\<dots> = Inr (Some ''[x0+16]=0x10'')"
    by (simp add: memContentOf_def load) (simp add: x0 str)
  finally show ?thesis using load by simp
qed

section \<open>Memory inspection (claim C8)\<close>

text \<open>
  Claim C8, as the code has it: memory inspection returns a string for every value and
  every memory; no fault leaves it. It is the empty annotation when the value fails
  the pointer-safety check. When the peek of 32 bytes succeeds and the bytes up to the
  zero terminator (or the limit) are all printable ASCII and more than two, it is the
  quoted-string annotation of exactly those bytes. In every other case, also when the
  peek of 32 bytes faults, one word is read from the value: if that read succeeds and
  the word passes the pointer-safety check, the result is the one-level points-to
  annotation, and otherwise the empty annotation.
\<close>

theorem inspectMemory_cases:
  "(\<not> isSafePointer v \<longrightarrow> inspectMemory m v = []) \<and>
   (\<forall>p u8. v = Some p \<and> isSafePointer v \<and> readByteArray m p 32 = Some u8 \<and>
            list_all printable (zrun u8) \<and> 2 < length (zrun u8) \<longrightarrow>
      inspectMemory m v
        = C_GREEN @ '' => '' @ [CHR 0x22] @ map (\<lambda>b. char_of (unat b)) (zrun u8)
          @ [CHR 0x22] @ C_RESET) \<and>
   (\<forall>p. v = Some p \<and> isSafePointer v \<and>
        (readByteArray m p 32 = None \<or>
         (\<exists>u8. readByteArray m p 32 = Some u8 \<and>
               \<not> (list_all printable (zrun u8) \<and> 2 < length (zrun u8)))) \<longrightarrow>
      inspectMemory m v
        = (case readPointer m p of
             None \<Rightarrow> []
           | Some w \<Rightarrow> if isSafePointer (Some w)
                       then C_BLUE @ '' => *('' @ ptrToString w @ '')'' @ C_RESET else []))"
proof -
  have a: "inspectMemory m v = []" if "\<not> isSafePointer v"
    using that by (simp add: inspectMemory_def)
  have b: "inspectMemory m (Some p)
        = C_GREEN @ '' => '' @ [CHR 0x22] @ map (\<lambda>b. char_of (unat b)) (zrun u8) @ [CHR 0x22] @ C_RESET"
    if "isSafePointer (Some p)" "readByteArray m p 32 = Some u8"
      "list_all printable (zrun u8)" "2 < length (zrun u8)" for p u8
    using that(1) peekString_Some [OF that(2,3,4)] by (simp add: inspectMemory_def)
  have c: "inspectMemory m (Some p) = peekPointer m p"
    if "isSafePointer (Some p)"
      "readByteArray m p 32 = None \<or>
         (\<exists>u8. readByteArray m p 32 = Some u8 \<and>
               \<not> (list_all printable (zrun u8) \<and> 2 < length (zrun u8)))" for p
    using that(1) peekString_None [OF that(2)] by (simp add: inspectMemory_def)
  show ?thesis
    using a b c by (auto simp: peekPointer_def)
qed


theorem inspectMemory_cases_witness:
  "isSafePointer (Some 0x30000) \<and>
   inspectMemory strMemory (Some 0x30000) = C_GREEN @ '' => '' @ [CHR 0x22] @ ''OK!'' @ [CHR 0x22] @ C_RESET \<and>
   \<not> isSafePointer (Some 0x30004) \<and>
   inspectMemory strMemory (Some 0x30004) = [] \<and>
   isSafePointer (Some 0x30008) \<and>
   readPointer strMemory 0x30008 = Some 0xFFFFFFFFFFFFFFFF \<and>
   inspectMemory strMemory (Some 0x30008) = []"
proof -
  let ?u8 = "[0x4F, 0x4B, 0x21, 0, 0xFF, 0xFF, 0xFF, 0xFF, 0xFF, 0xFF, 0xFF, 0xFF, 0xFF, 0xFF, 0xFF, 0xFF,
              0xFF, 0xFF, 0xFF, 0xFF, 0xFF, 0xFF, 0xFF, 0xFF, 0xFF, 0xFF, 0xFF, 0xFF, 0xFF, 0xFF, 0xFF, 0xFF] :: byte list"
  let ?ff = "[0xFF, 0xFF, 0xFF, 0xFF, 0xFF, 0xFF, 0xFF, 0xFF, 0xFF, 0xFF, 0xFF, 0xFF, 0xFF, 0xFF, 0xFF, 0xFF,
              0xFF, 0xFF, 0xFF, 0xFF, 0xFF, 0xFF, 0xFF, 0xFF, 0xFF, 0xFF, 0xFF, 0xFF, 0xFF, 0xFF, 0xFF, 0xFF] :: byte list"
  have safe: "isSafePointer (Some 0x30000)" "\<not> isSafePointer (Some 0x30004)"
    "isSafePointer (Some 0x30008)" "\<not> isSafePointer (Some 0xFFFFFFFFFFFFFFFF)"
    by (simp_all add: isSafePointer_def)
  have rd: "readByteArray strMemory 0x30000 32 = Some ?u8"
    by code_simp
  have rd8: "readByteArray strMemory 0x30008 32 = Some ?ff"
    by code_simp
  have ptr8: "readPointer strMemory 0x30008 = Some 0xFFFFFFFFFFFFFFFF"
    by code_simp
  have run: "zrun ?u8 = [0x4F, 0x4B, 0x21]" "zrun ?ff = ?ff"
    by (simp_all add: zrun_def)
  have pr: "list_all printable [0x4F, 0x4B, 0x21]" "\<not> list_all printable ?ff"
    by (simp_all add: printable_def)
  have chars: "map (\<lambda>b. char_of (unat b)) [0x4F, 0x4B, 0x21 :: byte] = ''OK!''"
    by code_simp
  note t = inspectMemory_cases [where m = strMemory]
  from t [where v = "Some 0x30000"] safe(1) rd run(1) pr(1)
  have one: "inspectMemory strMemory (Some 0x30000)
               = C_GREEN @ '' => '' @ [CHR 0x22] @ map (\<lambda>b. char_of (unat b)) [0x4F, 0x4B, 0x21 :: byte]
                 @ [CHR 0x22] @ C_RESET"
    by simp
  from t [where v = "Some 0x30004"] safe(2)
  have two: "inspectMemory strMemory (Some 0x30004) = []"
    by simp
  from t [where v = "Some 0x30008"] safe(3,4) rd8 run(2) pr(2) ptr8
  have three: "inspectMemory strMemory (Some 0x30008) = []"
    by simp
  from safe ptr8 one two three show ?thesis
    unfolding chars by simp
qed

text \<open>
  The claim as stated gives the empty annotation whenever a read fails. The two reads
  stand in separate \<^verbatim>\<open>try\<close> blocks: when the peek of 32 bytes faults and the read
  of one word succeeds, the result is the points-to annotation. Here eight bytes are
  readable at \<open>0x10000\<close> and hold a safe pointer.
\<close>

theorem inspectMemory_fault_counterexample:
  "readByteArray cexMemory 0x10000 32 = None \<and>
   inspectMemory cexMemory (Some 0x10000) = C_BLUE @ '' => *(0x20000)'' @ C_RESET"
proof -
  have peek: "readByteArray cexMemory 0x10000 32 = None"
    by code_simp
  have word: "readPointer cexMemory 0x10000 = Some 0x20000"
    by code_simp
  have safe: "isSafePointer (Some 0x10000)" "isSafePointer (Some 0x20000)"
    by (simp_all add: isSafePointer_def)
  have str: "ptrToString 0x20000 = ''0x20000''"
    by (simp add: ptrToString_def toString16.simps digitChar_def)
  have "peekString cexMemory 0x10000 = None"
    by (simp add: peekString_def STR_PEEK_LEN_def peek)
  then have "inspectMemory cexMemory (Some 0x10000) = peekPointer cexMemory 0x10000"
    by (simp add: inspectMemory_def safe)
  also have "\<dots> = C_BLUE @ '' => *(0x20000)'' @ C_RESET"
    by (simp add: peekPointer_def word safe str)
  finally show ?thesis using peek by simp
qed


end
